theory Spec2Isabelle
  imports Complex_Main "HOL-Library.AList" "HOL-Library.Sublist"
begin

section \<open>JavaScript values\<close>

text \<open>
  The values that travel through the client and the tool handlers are the values of a
  decoded JSON document, plus \<open>undefined\<close>. An object is the list of its own enumerable
  properties, in the order \<open>Object.entries\<close> walks them (insertion order, for keys that are
  not array indices); a well-formed object has distinct keys. Numbers are the
  integer-valued ones whose decimal rendering is the plain digit string (magnitude below
  \<open>10^21\<close>); fractions, \<open>NaN\<close> and the infinities are outside the model.
\<close>

datatype jsval =
    JUndefined
  | JNull
  | JBool bool
  | JNum int
  | JStr string
  | JArr "jsval list"
  | JObj "(string \<times> jsval) list"

text \<open>\<open>ToBoolean\<close>: what \<open>if (v)\<close>, \<open>!v\<close>, \<open>v && ...\<close> and \<open>v ? a : b\<close> test.\<close>

fun truthy :: "jsval \<Rightarrow> bool" where
  "truthy JUndefined = False"
| "truthy JNull = False"
| "truthy (JBool b) = b"
| "truthy (JNum n) = (n \<noteq> 0)"
| "truthy (JStr s) = (s \<noteq> [])"
| "truthy (JArr xs) = True"
| "truthy (JObj fs) = True"

definition digit_char :: "nat \<Rightarrow> char" where
  "digit_char d = ''0123456789'' ! d"

fun digits :: "nat \<Rightarrow> string" where
  "digits n = (if n < 10 then [digit_char n] else digits (n div 10) @ [digit_char (n mod 10)])"

declare digits.simps [simp del]

text \<open>\<open>Number.prototype.toString\<close> on an integer-valued number.\<close>

definition Number_toString :: "int \<Rightarrow> string" where
  "Number_toString i = (if i < 0 then CHR ''-'' # digits (nat (- i)) else digits (nat i))"

text \<open>\<open>Array.prototype.join\<close> on elements that are already strings.\<close>

fun join :: "string \<Rightarrow> string list \<Rightarrow> string" where
  "join sep [] = []"
| "join sep [x] = x"
| "join sep (x # y # ys) = x @ sep @ join sep (y # ys)"

fun sequence :: "'a option list \<Rightarrow> 'a list option" where
  "sequence [] = Some []"
| "sequence (x # xs) =
     (case x of None \<Rightarrow> None | Some y \<Rightarrow> map_option ((#) y) (sequence xs))"

text \<open>
  \<open>String(v)\<close>, which a template literal \<open>`${v}`\<close> applies as well. \<open>None\<close> stands for the
  \<open>TypeError\<close> of \<open>ToPrimitive\<close>: an object whose own \<open>toString\<close> property shadows
  \<open>Object.prototype.toString\<close> with a value that cannot be called (no decoded JSON value
  can) has no primitive value. An array is joined with commas, \<open>null\<close> and \<open>undefined\<close>
  elements rendering as the empty string.
\<close>

fun String :: "jsval \<Rightarrow> string option" where
  "String JUndefined = Some ''undefined''"
| "String JNull = Some ''null''"
| "String (JBool b) = Some (if b then ''true'' else ''false'')"
| "String (JNum n) = Some (Number_toString n)"
| "String (JStr s) = Some s"
| "String (JArr xs) =
     map_option (join '','')
       (sequence (map (\<lambda>x. if x = JUndefined \<or> x = JNull then Some [] else String x) xs))"
| "String (JObj fs) =
     (if ''toString'' \<in> fst ` set fs then None else Some ''[object Object]'')"

section \<open>Thrown values\<close>

text \<open>
  A \<open>catch\<close> clause receives any value. An object (an \<open>Error\<close> instance or a plain
  object) is described by the properties the sources read: \<open>message\<close>, \<open>name\<close>,
  \<open>issues\<close> and \<open>response\<close>. A property the object lacks is \<open>undefined\<close>. The sources
  only test \<open>response\<close> for truth and read its \<open>status\<close>: so \<open>response\<close> is \<open>None\<close> when
  it is absent or falsy, and otherwise the value that reading \<open>status\<close> from it gives (the
  number of a Fetch \<open>Response\<close>, any value of a plain object, \<open>undefined\<close> when the
  response has no such property).
\<close>

record response =
  status :: jsval

record js_error =
  instance_of_Error :: bool
  name :: jsval
  message :: jsval
  response :: "response option"
  issues :: jsval

datatype thrown =
    ThrownUndefined
  | ThrownNull
  | ThrownBool bool
  | ThrownNum int
  | ThrownStr string
  | ThrownObj js_error

text \<open>\<open>new Error(m)\<close> and the engine's \<open>TypeError\<close>.\<close>

definition new_Error :: "string \<Rightarrow> thrown" where
  "new_Error m =
     ThrownObj \<lparr>instance_of_Error = True, name = JStr ''Error'', message = JStr m,
                response = None, issues = JUndefined\<rparr>"

definition TypeError :: "string \<Rightarrow> thrown" where
  "TypeError m =
     ThrownObj \<lparr>instance_of_Error = True, name = JStr ''TypeError'', message = JStr m,
                response = None, issues = JUndefined\<rparr>"

definition cannot_convert :: thrown where
  "cannot_convert = TypeError ''Cannot convert object to primitive value''"

section \<open>The client: \<open>src/api/i14y-client.js\<close>\<close>

subsection \<open>\<open>_buildSearchParams\<close>\<close>

text \<open>
  \<open>searchParams[key] = s\<close> on the object literal \<open>{}\<close>, for a string \<open>s\<close>: an own
  property is created or overwritten, except under the key \<open>__proto__\<close>, where the
  inherited setter ignores a value that is neither an object nor \<open>null\<close>.
\<close>

definition assign :: "string \<Rightarrow> string \<Rightarrow> (string \<times> string) list \<Rightarrow> (string \<times> string) list" where
  "assign key s obj = (if key = ''__proto__'' then obj else AList.update key s obj)"

text \<open>The test of the \<open>forEach\<close> callback: the values that are not copied.\<close>

definition dropped :: "jsval \<Rightarrow> bool" where
  "dropped v = (\<not> (v \<noteq> JUndefined \<and> v \<noteq> JNull \<and> v \<noteq> JStr []))"

text \<open>The loop \<open>Object.entries(params).forEach(...)\<close>, run on the object built so far.\<close>

fun forEach_entry ::
  "(string \<times> jsval) list \<Rightarrow> (string \<times> string) list \<Rightarrow> thrown + (string \<times> string) list" where
  "forEach_entry [] searchParams = Inr searchParams"
| "forEach_entry ((key, v) # entries) searchParams =
     (if v \<noteq> JUndefined \<and> v \<noteq> JNull \<and> v \<noteq> JStr [] then
        (case String v of
           None \<Rightarrow> Inl cannot_convert
         | Some s \<Rightarrow> forEach_entry entries (assign key s searchParams))
      else forEach_entry entries searchParams)"

text \<open>\<open>!searchParams.key\<close> on an object of strings: the key is missing or holds \<open>""\<close>.\<close>

definition falsy_prop :: "(string \<times> string) list \<Rightarrow> string \<Rightarrow> bool" where
  "falsy_prop obj key = (case map_of obj key of None \<Rightarrow> True | Some s \<Rightarrow> s = [])"

definition buildSearchParams ::
  "(string \<times> jsval) list \<Rightarrow> int \<Rightarrow> int \<Rightarrow> thrown + (string \<times> string) list" where
  "buildSearchParams params defaultPage defaultPageSize =
     (case forEach_entry params [] of
        Inl e \<Rightarrow> Inl e
      | Inr searchParams \<Rightarrow>
          (let sp1 = (if falsy_prop searchParams ''page''
                      then assign ''page'' (Number_toString defaultPage) searchParams
                      else searchParams);
               sp2 = (if falsy_prop sp1 ''pageSize''
                      then assign ''pageSize'' (Number_toString defaultPageSize) sp1
                      else sp1)
           in Inr sp2))"

text \<open>A canonical query handed back as a raw parameter object.\<close>

definition as_params :: "(string \<times> string) list \<Rightarrow> (string \<times> jsval) list" where
  "as_params sp = map (\<lambda>(k, s). (k, JStr s)) sp"

section \<open>The world outside the repository\<close>

text \<open>
  What the handlers reach outside the repository: the transport (one logical \<open>ky\<close> call
  with its retries, and the decoding of the body: either may raise), the platform's
  \<open>JSON.stringify(_, null, 2)\<close> on a value other than \<open>undefined\<close>, the platform's reading
  of a string as a number, as far as \<open>>=\<close> needs it (\<open>StringToNumber_ge s n\<close> says that the
  number read from \<open>s\<close> is at least \<open>n\<close>), and three things the validation library
  decides: which strings are UUIDs, the issue objects of a failed parse, and the text of
  its error message.
\<close>

record request =
  path :: string
  searchParams :: "(string \<times> jsval) list option"

datatype zissue = ZIssue string "string list"

record env =
  http :: "request \<Rightarrow> thrown + jsval"
  JSON_stringify :: "jsval \<Rightarrow> string"
  StringToNumber_ge :: "string \<Rightarrow> int \<Rightarrow> bool"
  is_uuid :: "string \<Rightarrow> bool"
  zod_issue :: "zissue \<Rightarrow> jsval"
  zod_message :: "zissue list \<Rightarrow> string"

subsection \<open>\<open>_handleError\<close>\<close>

text \<open>
  Reading a property of the caught value. \<open>undefined\<close> and \<open>null\<close> have no properties:
  the read raises a \<open>TypeError\<close>. A boolean, a number or a string has neither a
  \<open>message\<close> nor a \<open>response\<close>.
\<close>

definition nullish :: "thrown \<Rightarrow> bool" where
  "nullish e = (e = ThrownUndefined \<or> e = ThrownNull)"

fun nullish_name :: "thrown \<Rightarrow> string" where
  "nullish_name ThrownNull = ''null''"
| "nullish_name e = ''undefined''"

definition cannot_read :: "thrown \<Rightarrow> string \<Rightarrow> thrown" where
  "cannot_read e key =
     TypeError (''Cannot read properties of '' @ nullish_name e @ '' (reading '' @ [CHR 0x27] @ key
                @ [CHR 0x27] @ '')'')"

fun message_of :: "thrown \<Rightarrow> jsval" where
  "message_of (ThrownObj e) = message e"
| "message_of e = JUndefined"

fun response_of :: "thrown \<Rightarrow> response option" where
  "response_of (ThrownObj e) = response e"
| "response_of e = None"

text \<open>The template literal \<open>`pre${v}post`\<close>.\<close>

definition template :: "string \<Rightarrow> jsval \<Rightarrow> string \<Rightarrow> thrown + string" where
  "template pre v post =
     (case String v of None \<Rightarrow> Inl cannot_convert | Some s \<Rightarrow> Inr (pre @ s @ post))"

text \<open>
  \<open>v >= n\<close> for a number \<open>n\<close>. A number is compared as it is; \<open>undefined\<close> is \<open>NaN\<close>, \<open>null\<close>
  is 0, a boolean is 0 or 1. A string, an array or an object is first brought to its
  primitive (for the last two the string that \<open>String\<close> gives, or the \<open>TypeError\<close>), and
  the platform reads the string as a number.
\<close>

fun ge :: "env \<Rightarrow> jsval \<Rightarrow> int \<Rightarrow> thrown + bool" where
  "ge ev (JNum m) n = Inr (m \<ge> n)"
| "ge ev JUndefined n = Inr False"
| "ge ev JNull n = Inr (0 \<ge> n)"
| "ge ev (JBool b) n = Inr ((if b then 1 else 0) \<ge> n)"
| "ge ev v n =
     (case String v of None \<Rightarrow> Inl cannot_convert | Some s \<Rightarrow> Inr (StringToNumber_ge ev s n))"

text \<open>
  \<open>_handleError(error)\<close>: \<open>Inl\<close> is the exception the body raises, \<open>Inr\<close> the value it
  returns. With a truthy response, the message prefix is rendered from \<open>status\<close> before
  any test of it.
\<close>

definition handleError :: "env \<Rightarrow> thrown \<Rightarrow> thrown + thrown" where
  "handleError ev error =
     (if nullish error then Inl (cannot_read error ''message'')
      else if truthy (message_of error) \<and> response_of error = None then Inr error
      else
        (case response_of error of
           Some r \<Rightarrow>
             (let st = status r in
              case template ''API request failed with status '' st [] of
                Inl t \<Rightarrow> Inl t
              | Inr msg \<Rightarrow>
                  if st = JNum 400 then Inr (new_Error (msg @ '': Bad Request - Invalid parameters''))
                  else if st = JNum 401 then Inr (new_Error (msg @ '': Unauthorized''))
                  else if st = JNum 403 then Inr (new_Error (msg @ '': Forbidden''))
                  else if st = JNum 404 then Inr (new_Error (msg @ '': Resource not found''))
                  else
                    (case ge ev st 500 of
                       Inl t \<Rightarrow> Inl t
                     | Inr b \<Rightarrow> if b then Inr (new_Error (msg @ '': Server error'')) else Inr error))
         | None \<Rightarrow> Inr error))"

text \<open>\<open>throw this._handleError(error)\<close>: what the enclosing method ends up throwing.\<close>

definition throw_handled :: "env \<Rightarrow> thrown \<Rightarrow> thrown" where
  "throw_handled ev error = (case handleError ev error of Inl e \<Rightarrow> e | Inr e \<Rightarrow> e)"

section \<open>The client's request methods\<close>

text \<open>
  The singleton client is taken as constructed: \<open>config.js\<close> refuses to load without a
  base URL outside the tests. Every method threads the list of the requests issued so
  far, and returns what it resolves to (\<open>Inr\<close>) or rejects with (\<open>Inl\<close>).

  \<open>await this.client.get(path, options)\<close> followed by \<open>await response.json()\<close>, both
  inside the method's \<open>try\<close>: one request is issued, and the body or the failure comes
  back. A call without an options object has \<open>searchParams = None\<close>.
\<close>

definition client_get ::
  "env \<Rightarrow> string \<Rightarrow> (string \<times> jsval) list option \<Rightarrow> request list \<Rightarrow> (thrown + jsval) \<times> request list" where
  "client_get ev p opts sent =
     (http ev \<lparr>path = p, searchParams = opts\<rparr>, sent @ [\<lparr>path = p, searchParams = opts\<rparr>])"

text \<open>
  The body shared by \<open>getConcept\<close>, \<open>getDataset\<close>, \<open>getDataService\<close> and
  \<open>getPublicService\<close>: the path is computed, the request issued, and whatever is caught
  goes through \<open>throw this._handleError(error)\<close>.
\<close>

definition get_by_id ::
  "env \<Rightarrow> string \<Rightarrow> jsval \<Rightarrow> (string \<times> jsval) list option \<Rightarrow> request list \<Rightarrow> (thrown + jsval) \<times> request list" where
  "get_by_id ev pre ident opts sent =
     (case template pre ident [] of
        Inl e \<Rightarrow> (Inl (throw_handled ev e), sent)
      | Inr p \<Rightarrow>
          (case client_get ev p opts sent of
             (Inl e, sent') \<Rightarrow> (Inl (throw_handled ev e), sent')
           | (Inr body, sent') \<Rightarrow> (Inr body, sent')))"

definition client_getConcept ::
  "env \<Rightarrow> jsval \<Rightarrow> jsval \<Rightarrow> request list \<Rightarrow> (thrown + jsval) \<times> request list" where
  "client_getConcept ev conceptId includeCodeListEntries sent =
     (if truthy includeCodeListEntries
      then get_by_id ev ''concepts/'' conceptId (Some [(''includeCodeListEntries'', JStr ''true'')]) sent
      else get_by_id ev ''concepts/'' conceptId None sent)"

definition client_getDataset ::
  "env \<Rightarrow> jsval \<Rightarrow> jsval \<Rightarrow> request list \<Rightarrow> (thrown + jsval) \<times> request list" where
  "client_getDataset ev datasetId language sent =
     (if truthy language
      then get_by_id ev ''datasets/'' datasetId (Some [(''language'', language)]) sent
      else get_by_id ev ''datasets/'' datasetId None sent)"

definition client_getDataService ::
  "env \<Rightarrow> jsval \<Rightarrow> request list \<Rightarrow> (thrown + jsval) \<times> request list" where
  "client_getDataService ev dataServiceId sent = get_by_id ev ''dataservices/'' dataServiceId None sent"

definition client_getPublicService ::
  "env \<Rightarrow> jsval \<Rightarrow> request list \<Rightarrow> (thrown + jsval) \<times> request list" where
  "client_getPublicService ev publicServiceId sent =
     get_by_id ev ''publicservices/'' publicServiceId None sent"

text \<open>
  The body shared by the four search methods: the canonical query is built with the
  defaults 1 and 25 and sent with the request.
\<close>

definition search_at ::
  "env \<Rightarrow> string \<Rightarrow> (string \<times> jsval) list \<Rightarrow> request list \<Rightarrow> (thrown + jsval) \<times> request list" where
  "search_at ev p params sent =
     (case buildSearchParams params 1 25 of
        Inl e \<Rightarrow> (Inl (throw_handled ev e), sent)
      | Inr sp \<Rightarrow>
          (case client_get ev p (Some (as_params sp)) sent of
             (Inl e, sent') \<Rightarrow> (Inl (throw_handled ev e), sent')
           | (Inr body, sent') \<Rightarrow> (Inr body, sent')))"

definition client_searchConcepts ::
  "env \<Rightarrow> (string \<times> jsval) list \<Rightarrow> request list \<Rightarrow> (thrown + jsval) \<times> request list" where
  "client_searchConcepts ev params sent = search_at ev ''concepts'' params sent"

definition client_searchDatasets ::
  "env \<Rightarrow> (string \<times> jsval) list \<Rightarrow> request list \<Rightarrow> (thrown + jsval) \<times> request list" where
  "client_searchDatasets ev params sent = search_at ev ''datasets'' params sent"

definition client_searchDataServices ::
  "env \<Rightarrow> (string \<times> jsval) list \<Rightarrow> request list \<Rightarrow> (thrown + jsval) \<times> request list" where
  "client_searchDataServices ev params sent = search_at ev ''dataservices'' params sent"

definition client_searchPublicServices ::
  "env \<Rightarrow> (string \<times> jsval) list \<Rightarrow> request list \<Rightarrow> (thrown + jsval) \<times> request list" where
  "client_searchPublicServices ev params sent = search_at ev ''publicservices'' params sent"

text \<open>\<open>getCodeListEntries\<close>: the query is built first, then the path.\<close>

definition client_getCodeListEntries ::
  "env \<Rightarrow> jsval \<Rightarrow> (string \<times> jsval) list \<Rightarrow> request list \<Rightarrow> (thrown + jsval) \<times> request list" where
  "client_getCodeListEntries ev conceptId params sent =
     (case buildSearchParams params 1 25 of
        Inl e \<Rightarrow> (Inl (throw_handled ev e), sent)
      | Inr sp \<Rightarrow>
          (case template ''concepts/'' conceptId ''/codelistentries'' of
             Inl e \<Rightarrow> (Inl (throw_handled ev e), sent)
           | Inr p \<Rightarrow>
               (case client_get ev p (Some (as_params sp)) sent of
                  (Inl e, sent') \<Rightarrow> (Inl (throw_handled ev e), sent')
                | (Inr body, sent') \<Rightarrow> (Inr body, sent'))))"

section \<open>Response formatting: \<open>src/utils/formatting.js\<close>\<close>

text \<open>
  The response envelope \<open>{ content: [{ type, text }], isError? }\<close>. A missing \<open>isError\<close> is
  \<open>None\<close>. The text of a success is \<open>JSON.stringify(data, null, 2)\<close>, a string, or
  \<open>undefined\<close> when \<open>data\<close> is \<open>undefined\<close>; so \<open>text\<close> holds a value.
\<close>

record content_item =
  type :: string
  text_value :: jsval

record envelope =
  content :: "content_item list"
  isError :: "bool option"

definition formatSuccess :: "env \<Rightarrow> jsval \<Rightarrow> envelope" where
  "formatSuccess ev data =
     \<lparr>content =
        [\<lparr>type = ''text'',
          text_value = (case data of
                     JStr s \<Rightarrow> JStr s
                   | JUndefined \<Rightarrow> JUndefined
                   | _ \<Rightarrow> JStr (JSON_stringify ev data))\<rparr>],
      isError = None\<rparr>"

text \<open>
  Reading a property of a JSON value, for the names the sources read (\<open>path\<close>,
  \<open>message\<close>, \<open>id\<close>, \<open>page\<close>, \<open>pageSize\<close>, \<open>language\<close>): none of them is defined on a
  prototype, so only an object's own property can answer.
\<close>

fun get_prop :: "jsval \<Rightarrow> string \<Rightarrow> thrown + jsval" where
  "get_prop JUndefined key = Inl (cannot_read ThrownUndefined key)"
| "get_prop JNull key = Inl (cannot_read ThrownNull key)"
| "get_prop (JObj fs) key = Inr (case map_of fs key of None \<Rightarrow> JUndefined | Some v \<Rightarrow> v)"
| "get_prop v key = Inr JUndefined"

text \<open>\<open>issue.path.join(".")\<close> for a truthy \<open>issue.path\<close>: only an array has \<open>join\<close>.\<close>

fun path_join :: "jsval \<Rightarrow> thrown + string" where
  "path_join (JArr xs) =
     (case sequence (map (\<lambda>x. if x = JUndefined \<or> x = JNull then Some [] else String x) xs) of
        None \<Rightarrow> Inl cannot_convert
      | Some ss \<Rightarrow> Inr (join ''.'' ss))"
| "path_join v = Inl (TypeError ''issue.path.join is not a function'')"

text \<open>The callback of \<open>error.issues.map\<close>.\<close>

definition issue_line :: "jsval \<Rightarrow> thrown + string" where
  "issue_line issue =
     (case get_prop issue ''path'' of
        Inl e \<Rightarrow> Inl e
      | Inr p \<Rightarrow>
          (case (if truthy p then path_join p else Inr ''unknown'') of
             Inl e \<Rightarrow> Inl e
           | Inr pth \<Rightarrow>
               (case get_prop issue ''message'' of
                  Inl e \<Rightarrow> Inl e
                | Inr m \<Rightarrow>
                    (case String m of
                       None \<Rightarrow> Inl cannot_convert
                     | Some s \<Rightarrow> Inr (pth @ '': '' @ s)))))"

fun issue_lines :: "jsval list \<Rightarrow> thrown + string list" where
  "issue_lines [] = Inr []"
| "issue_lines (i # is) =
     (case issue_line i of
        Inl e \<Rightarrow> Inl e
      | Inr l \<Rightarrow> (case issue_lines is of Inl e \<Rightarrow> Inl e | Inr ls \<Rightarrow> Inr (l # ls)))"

definition error_envelope :: "string \<Rightarrow> envelope" where
  "error_envelope s =
     \<lparr>content = [\<lparr>type = ''text'', text_value = JStr s\<rparr>], isError = Some True\<rparr>"

text \<open>\<open>!error\<close> on a caught value.\<close>

fun falsy_thrown :: "thrown \<Rightarrow> bool" where
  "falsy_thrown ThrownUndefined = True"
| "falsy_thrown ThrownNull = True"
| "falsy_thrown (ThrownBool b) = (\<not> b)"
| "falsy_thrown (ThrownNum n) = (n = 0)"
| "falsy_thrown (ThrownStr s) = (s = [])"
| "falsy_thrown (ThrownObj e) = False"

text \<open>
  \<open>formatError(error)\<close>. The three steps of the \<open>instanceof Error\<close> branch run in the
  source's order; the last template literal renders whatever \<open>message\<close> has become.
\<close>

definition formatError_message :: "js_error \<Rightarrow> thrown + jsval" where
  "formatError_message e =
     (let m0 = (if truthy (message e) then message e else JStr ''Unknown error'') in
      case (case response e of
              Some r \<Rightarrow>
                if truthy (status r) then
                  (case String (status r) of
                     None \<Rightarrow> Inl cannot_convert
                   | Some st \<Rightarrow>
                       (case String m0 of
                          None \<Rightarrow> Inl cannot_convert
                        | Some s \<Rightarrow> Inr (JStr (st @ '': '' @ s))))
                else Inr m0
            | None \<Rightarrow> Inr m0) of
        Inl t \<Rightarrow> Inl t
      | Inr m1 \<Rightarrow>
          (case issues e of
             JArr is \<Rightarrow>
               if name e = JStr ''ValidationError'' then
                 (case issue_lines is of
                    Inl t \<Rightarrow> Inl t
                  | Inr ls \<Rightarrow> Inr (JStr (''Validation Error:'' @ [CHR 0x0A] @ join [CHR 0x0A] ls)))
               else Inr m1
           | _ \<Rightarrow> Inr m1))"

definition formatError :: "thrown \<Rightarrow> thrown + envelope" where
  "formatError error =
     (if falsy_thrown error then Inr (error_envelope ''Error: Unknown error'')
      else
        (case (case error of
                 ThrownObj e \<Rightarrow>
                   if instance_of_Error e then formatError_message e
                   else if truthy (message e) then Inr (message e)
                   else Inr (JStr ''Unknown error'')
               | ThrownStr s \<Rightarrow> Inr (JStr s)
               | _ \<Rightarrow> Inr (JStr ''Unknown error'')) of
           Inl t \<Rightarrow> Inl t
         | Inr m \<Rightarrow>
             (case String m of
                None \<Rightarrow> Inl cannot_convert
              | Some s \<Rightarrow> Inr (error_envelope (''Error: '' @ s)))))"

text \<open>
  \<open>formatPaginationInfo\<close>, on integers. With \<open>pageSize = 0\<close> the quotient is an infinity
  or \<open>NaN\<close>, which the integer model does not hold: \<open>None\<close>.
\<close>

record pagination_info =
  page :: int
  pageSize :: int
  totalItems :: int
  totalPages :: int
  hasNextPage :: bool
  hasPreviousPage :: bool

definition formatPaginationInfo :: "int \<Rightarrow> int \<Rightarrow> int \<Rightarrow> pagination_info option" where
  "formatPaginationInfo pg psize items =
     (if psize = 0 then None
      else
        (let pages = \<lceil>real_of_int items / real_of_int psize\<rceil>
         in Some \<lparr>page = pg, pageSize = psize, totalItems = items, totalPages = pages,
                   hasNextPage = (pg < pages - 1), hasPreviousPage = (pg > 0)\<rparr>))"

section \<open>Request validation: the schemas and their parser\<close>

text \<open>
  The schemas of the tools are built from a handful of combinators of the validation
  library: \<open>z.string()\<close>, \<open>z.string().uuid()\<close>, \<open>z.enum([...])\<close>,
  \<open>z.number().int().min(a).max(b)\<close>, \<open>.optional()\<close>, \<open>.default(d)\<close> and \<open>z.object({...})\<close>.
  A schema is kept as data, in the order the source writes it, and \<open>parse\<close> follows the
  library: a field is read from the argument object (\<open>undefined\<close> when missing), an
  optional field accepts \<open>undefined\<close>, a default replaces \<open>undefined\<close> before the inner
  check, every check of a number is run, unknown keys are stripped, and the issues of all
  fields are collected before the error is raised. An issue is its code and its path.
\<close>

datatype zcheck = ZInt | ZMin int | ZMax int

datatype ztype =
    ZString
  | ZStringUuid
  | ZEnum "string list"
  | ZNumber "zcheck list"
  | ZOptional ztype
  | ZDefault ztype jsval

type_synonym zobject = "(string \<times> ztype) list"

text \<open>Every number of the model is an integer, so \<open>.int()\<close> has nothing to reject.\<close>

fun check_number :: "int \<Rightarrow> zcheck \<Rightarrow> string list" where
  "check_number n ZInt = []"
| "check_number n (ZMin m) = (if n < m then [''too_small''] else [])"
| "check_number n (ZMax m) = (if n > m then [''too_big''] else [])"

fun parse_type :: "env \<Rightarrow> ztype \<Rightarrow> jsval \<Rightarrow> string list + jsval" where
  "parse_type ev ZString v = (case v of JStr s \<Rightarrow> Inr v | _ \<Rightarrow> Inl [''invalid_type''])"
| "parse_type ev ZStringUuid v =
     (case v of
        JStr s \<Rightarrow> if is_uuid ev s then Inr v else Inl [''invalid_string'']
      | _ \<Rightarrow> Inl [''invalid_type''])"
| "parse_type ev (ZEnum vs) v =
     (case v of
        JStr s \<Rightarrow> if s \<in> set vs then Inr v else Inl [''invalid_enum_value'']
      | _ \<Rightarrow> Inl [''invalid_type''])"
| "parse_type ev (ZNumber checks) v =
     (case v of
        JNum n \<Rightarrow> (case concat (map (check_number n) checks) of [] \<Rightarrow> Inr v | cs \<Rightarrow> Inl cs)
      | _ \<Rightarrow> Inl [''invalid_type''])"
| "parse_type ev (ZOptional t) v = (if v = JUndefined then Inr JUndefined else parse_type ev t v)"
| "parse_type ev (ZDefault t d) v = parse_type ev t (if v = JUndefined then d else v)"

text \<open>\<open>obj.key\<close> on an object given by its properties.\<close>

definition field :: "(string \<times> jsval) list \<Rightarrow> string \<Rightarrow> jsval" where
  "field fs key = (case map_of fs key of None \<Rightarrow> JUndefined | Some v \<Rightarrow> v)"

text \<open>
  The fields of an object schema, run against the properties \<open>fs\<close> of the argument: the
  issues, and the properties of the parsed object. A field whose parsed value is
  \<open>undefined\<close> is kept only when the argument had the key.
\<close>

fun parse_fields :: "env \<Rightarrow> zobject \<Rightarrow> (string \<times> jsval) list \<Rightarrow> zissue list \<times> (string \<times> jsval) list" where
  "parse_fields ev [] fs = ([], [])"
| "parse_fields ev ((key, t) # shape) fs =
     (case parse_fields ev shape fs of
        (iss, out) \<Rightarrow>
          (case parse_type ev t (field fs key) of
             Inl codes \<Rightarrow> (map (\<lambda>c. ZIssue c [key]) codes @ iss, out)
           | Inr v \<Rightarrow>
               (iss, if v \<noteq> JUndefined \<or> key \<in> fst ` set fs then (key, v) # out else out)))"

definition ZodError :: "env \<Rightarrow> zissue list \<Rightarrow> thrown" where
  "ZodError ev iss =
     ThrownObj \<lparr>instance_of_Error = True, name = JStr ''ZodError'',
                message = JStr (zod_message ev iss), response = None,
                issues = JArr (map (zod_issue ev) iss)\<rparr>"

text \<open>\<open>schema.parse(args)\<close>: the parsed object, or the \<open>ZodError\<close> it throws.\<close>

definition parse :: "env \<Rightarrow> zobject \<Rightarrow> jsval \<Rightarrow> thrown + (string \<times> jsval) list" where
  "parse ev shape args =
     (case args of
        JObj fs \<Rightarrow>
          (case parse_fields ev shape fs of
             ([], out) \<Rightarrow> Inr out
           | (iss, out) \<Rightarrow> Inl (ZodError ev iss))
      | _ \<Rightarrow> Inl (ZodError ev [ZIssue ''invalid_type'' []]))"

subsection \<open>The schemas of \<open>concept-tools.js\<close>\<close>

definition searchConceptsSchema :: zobject where
  "searchConceptsSchema =
     [(''conceptIdentifier'', ZOptional ZString),
      (''publisherIdentifier'', ZOptional ZString),
      (''version'', ZOptional ZString),
      (''publicationLevel'', ZOptional (ZEnum [''Internal'', ''Public''])),
      (''registrationStatus'',
         ZOptional (ZEnum [''Incomplete'', ''Candidate'', ''Recorded'', ''Qualified'', ''Standard'',
                           ''PreferredStandard'', ''Superseded'', ''Retired''])),
      (''page'', ZDefault (ZNumber [ZInt, ZMin 1]) (JNum 1)),
      (''pageSize'', ZDefault (ZNumber [ZInt, ZMin 1, ZMax 100]) (JNum 25))]"

definition getConceptSchema :: zobject where
  "getConceptSchema = [(''id'', ZStringUuid)]"

definition getCodeListEntriesSchema :: zobject where
  "getCodeListEntriesSchema =
     [(''id'', ZStringUuid),
      (''page'', ZDefault (ZNumber [ZInt, ZMin 1]) (JNum 1)),
      (''pageSize'', ZDefault (ZNumber [ZInt, ZMin 1, ZMax 100]) (JNum 25))]"

subsection \<open>The schema \<open>catalog-tools.js\<close> imports from \<open>api/schemas.js\<close>\<close>

definition schemas_getCodeListEntriesSchema :: zobject where
  "schemas_getCodeListEntriesSchema =
     [(''id'', ZStringUuid),
      (''page'', ZDefault (ZNumber [ZInt, ZMin 1]) (JNum 1)),
      (''pageSize'', ZDefault (ZNumber [ZInt, ZMin 1, ZMax 100]) (JNum 25))]"

subsection \<open>The schemas of \<open>dataset-tools.js\<close>\<close>

definition searchDatasetsSchema :: zobject where
  "searchDatasetsSchema =
     [(''accessRights'', ZOptional ZString),
      (''datasetIdentifier'', ZOptional ZString),
      (''publisherIdentifier'', ZOptional ZString),
      (''publicationLevel'', ZOptional ZString),
      (''registrationStatus'', ZOptional ZString),
      (''page'', ZDefault (ZNumber [ZInt, ZMin 1]) (JNum 1)),
      (''pageSize'', ZDefault (ZNumber [ZInt, ZMin 1, ZMax 100]) (JNum 25))]"

definition getDatasetSchema :: zobject where
  "getDatasetSchema = [(''id'', ZString), (''language'', ZOptional ZString)]"

subsection \<open>The schemas of \<open>data-service-tools.js\<close>\<close>

definition searchDataServicesSchema :: zobject where
  "searchDataServicesSchema =
     [(''accessRights'', ZOptional ZString),
      (''dataServiceIdentifier'', ZOptional ZString),
      (''publisherIdentifier'', ZOptional ZString),
      (''publicationLevel'', ZOptional ZString),
      (''registrationStatus'', ZOptional ZString),
      (''page'', ZDefault (ZNumber [ZInt, ZMin 1]) (JNum 1)),
      (''pageSize'', ZDefault (ZNumber [ZInt, ZMin 1, ZMax 100]) (JNum 25))]"

definition getDataServiceSchema :: zobject where
  "getDataServiceSchema = [(''id'', ZStringUuid)]"

subsection \<open>The schemas of \<open>public-service-tools.js\<close>\<close>

definition searchPublicServicesSchema :: zobject where
  "searchPublicServicesSchema =
     [(''publicServiceIdentifier'', ZOptional ZString),
      (''publisherIdentifier'', ZOptional ZString),
      (''publicationLevel'', ZOptional ZString),
      (''registrationStatus'', ZOptional ZString),
      (''page'', ZDefault (ZNumber [ZInt, ZMin 1]) (JNum 1)),
      (''pageSize'', ZDefault (ZNumber [ZInt, ZMin 1, ZMax 100]) (JNum 25))]"

definition getPublicServiceSchema :: zobject where
  "getPublicServiceSchema = [(''id'', ZStringUuid)]"

section \<open>The tool handlers\<close>

text \<open>
  The \<open>catch\<close> block most handlers share:
  \<open>{ content: [{ type: 'text', text: `pre${error.message}` }], isError: true }\<close>.
  Reading \<open>error.message\<close> and rendering it may raise; then the handler rejects.
\<close>

definition message_envelope :: "string \<Rightarrow> thrown \<Rightarrow> thrown + envelope" where
  "message_envelope pre error =
     (if nullish error then Inl (cannot_read error ''message'')
      else
        (case String (message_of error) of
           None \<Rightarrow> Inl cannot_convert
         | Some s \<Rightarrow> Inr (error_envelope (pre @ s))))"

subsection \<open>\<open>concept-tools.js\<close>\<close>

definition tool_searchConcepts ::
  "env \<Rightarrow> jsval \<Rightarrow> request list \<Rightarrow> (thrown + envelope) \<times> request list" where
  "tool_searchConcepts ev args sent =
     (case parse ev searchConceptsSchema args of
        Inl error \<Rightarrow> (message_envelope ''Error searching concepts: '' error, sent)
      | Inr params \<Rightarrow>
          (case client_searchConcepts ev params sent of
             (Inl error, sent') \<Rightarrow> (message_envelope ''Error searching concepts: '' error, sent')
           | (Inr result, sent') \<Rightarrow> (Inr (formatSuccess ev result), sent')))"

definition tool_getConcept ::
  "env \<Rightarrow> jsval \<Rightarrow> request list \<Rightarrow> (thrown + envelope) \<times> request list" where
  "tool_getConcept ev args sent =
     (case parse ev getConceptSchema args of
        Inl error \<Rightarrow> (message_envelope ''Error getting concept: '' error, sent)
      | Inr parsed \<Rightarrow>
          (case client_getConcept ev (field parsed ''id'') (JBool False) sent of
             (Inl error, sent') \<Rightarrow> (message_envelope ''Error getting concept: '' error, sent')
           | (Inr result, sent') \<Rightarrow> (Inr (formatSuccess ev result), sent')))"

text \<open>
  \<open>getCodeListEntries\<close> of \<open>concept-tools.js\<close> destructures \<open>id\<close>, \<open>page\<close> and \<open>pageSize\<close>,
  logs them, and calls \<open>getConcept(id, true)\<close>.
\<close>

definition tool_getCodeListEntries ::
  "env \<Rightarrow> jsval \<Rightarrow> request list \<Rightarrow> (thrown + envelope) \<times> request list" where
  "tool_getCodeListEntries ev args sent =
     (case parse ev getCodeListEntriesSchema args of
        Inl error \<Rightarrow> (message_envelope ''Error getting code list entries: '' error, sent)
      | Inr parsed \<Rightarrow>
          (case client_getConcept ev (field parsed ''id'') (JBool True) sent of
             (Inl error, sent') \<Rightarrow> (message_envelope ''Error getting code list entries: '' error, sent')
           | (Inr result, sent') \<Rightarrow> (Inr (formatSuccess ev result), sent')))"

subsection \<open>\<open>catalog-tools.js\<close>\<close>

text \<open>
  The handler registered by \<open>registerCatalogTools\<close> does not parse: it reads \<open>args.id\<close>,
  \<open>args.page\<close> and \<open>args.pageSize\<close> and calls \<open>getCodeListEntries\<close>. Its \<open>catch\<close> block
  reads \<open>args.id\<close> again for the log entry before it builds the envelope. The text of a success
  is \<open>JSON.stringify(result, null, 2)\<close> for every result.
\<close>

definition catalog_success :: "env \<Rightarrow> jsval \<Rightarrow> envelope" where
  "catalog_success ev result =
     \<lparr>content =
        [\<lparr>type = ''text'',
          text_value = (if result = JUndefined then JUndefined else JStr (JSON_stringify ev result))\<rparr>],
      isError = None\<rparr>"

definition catalog_catch :: "jsval \<Rightarrow> thrown \<Rightarrow> thrown + envelope" where
  "catalog_catch args error =
     (case get_prop args ''id'' of
        Inl t \<Rightarrow> Inl t
      | Inr _ \<Rightarrow> message_envelope ''Error getting code list entries: '' error)"

definition catalog_getCodeListEntries ::
  "env \<Rightarrow> jsval \<Rightarrow> request list \<Rightarrow> (thrown + envelope) \<times> request list" where
  "catalog_getCodeListEntries ev args sent =
     (case get_prop args ''id'' of
        Inl t \<Rightarrow> (catalog_catch args t, sent)
      | Inr ident \<Rightarrow>
          (case get_prop args ''page'' of
             Inl t \<Rightarrow> (catalog_catch args t, sent)
           | Inr pg \<Rightarrow>
               (case get_prop args ''pageSize'' of
                  Inl t \<Rightarrow> (catalog_catch args t, sent)
                | Inr psize \<Rightarrow>
                    (case client_getCodeListEntries ev ident [(''page'', pg), (''pageSize'', psize)] sent of
                       (Inl error, sent') \<Rightarrow> (catalog_catch args error, sent')
                     | (Inr result, sent') \<Rightarrow> (Inr (catalog_success ev result), sent')))))"

subsection \<open>\<open>dataset-tools.js\<close>\<close>

definition tool_searchDatasets ::
  "env \<Rightarrow> jsval \<Rightarrow> request list \<Rightarrow> (thrown + envelope) \<times> request list" where
  "tool_searchDatasets ev args sent =
     (case parse ev searchDatasetsSchema args of
        Inl error \<Rightarrow> (formatError error, sent)
      | Inr params \<Rightarrow>
          (case client_searchDatasets ev params sent of
             (Inl error, sent') \<Rightarrow> (formatError error, sent')
           | (Inr result, sent') \<Rightarrow> (Inr (formatSuccess ev result), sent')))"

definition tool_getDataset ::
  "env \<Rightarrow> jsval \<Rightarrow> request list \<Rightarrow> (thrown + envelope) \<times> request list" where
  "tool_getDataset ev args sent =
     (case parse ev getDatasetSchema args of
        Inl error \<Rightarrow> (formatError error, sent)
      | Inr parsed \<Rightarrow>
          (case client_getDataset ev (field parsed ''id'') (field parsed ''language'') sent of
             (Inl error, sent') \<Rightarrow> (formatError error, sent')
           | (Inr result, sent') \<Rightarrow> (Inr (formatSuccess ev result), sent')))"

subsection \<open>\<open>data-service-tools.js\<close>\<close>

definition tool_searchDataServices ::
  "env \<Rightarrow> jsval \<Rightarrow> request list \<Rightarrow> (thrown + envelope) \<times> request list" where
  "tool_searchDataServices ev args sent =
     (case parse ev searchDataServicesSchema args of
        Inl error \<Rightarrow> (message_envelope ''Error: '' error, sent)
      | Inr params \<Rightarrow>
          (case client_searchDataServices ev params sent of
             (Inl error, sent') \<Rightarrow> (message_envelope ''Error: '' error, sent')
           | (Inr result, sent') \<Rightarrow> (Inr (formatSuccess ev result), sent')))"

definition tool_getDataService ::
  "env \<Rightarrow> jsval \<Rightarrow> request list \<Rightarrow> (thrown + envelope) \<times> request list" where
  "tool_getDataService ev args sent =
     (case parse ev getDataServiceSchema args of
        Inl error \<Rightarrow> (message_envelope ''Error: '' error, sent)
      | Inr parsed \<Rightarrow>
          (case client_getDataService ev (field parsed ''id'') sent of
             (Inl error, sent') \<Rightarrow> (message_envelope ''Error: '' error, sent')
           | (Inr result, sent') \<Rightarrow> (Inr (formatSuccess ev result), sent')))"

subsection \<open>\<open>public-service-tools.js\<close>\<close>

definition tool_searchPublicServices ::
  "env \<Rightarrow> jsval \<Rightarrow> request list \<Rightarrow> (thrown + envelope) \<times> request list" where
  "tool_searchPublicServices ev args sent =
     (case parse ev searchPublicServicesSchema args of
        Inl error \<Rightarrow> (message_envelope ''Error: '' error, sent)
      | Inr params \<Rightarrow>
          (case client_searchPublicServices ev params sent of
             (Inl error, sent') \<Rightarrow> (message_envelope ''Error: '' error, sent')
           | (Inr result, sent') \<Rightarrow> (Inr (formatSuccess ev result), sent')))"

definition tool_getPublicService ::
  "env \<Rightarrow> jsval \<Rightarrow> request list \<Rightarrow> (thrown + envelope) \<times> request list" where
  "tool_getPublicService ev args sent =
     (case parse ev getPublicServiceSchema args of
        Inl error \<Rightarrow> (message_envelope ''Error: '' error, sent)
      | Inr parsed \<Rightarrow>
          (case client_getPublicService ev (field parsed ''id'') sent of
             (Inl error, sent') \<Rightarrow> (message_envelope ''Error: '' error, sent')
           | (Inr result, sent') \<Rightarrow> (Inr (formatSuccess ev result), sent')))"

section \<open>The server: registry and dispatch\<close>

record tool =
  tool_name :: string
  description :: string
  schema :: zobject
  handler :: "env \<Rightarrow> jsval \<Rightarrow> request list \<Rightarrow> (thrown + envelope) \<times> request list"

text \<open>
  \<open>server.tool(name, description, schema, handler)\<close> is \<open>tools.set(name, {...})\<close> on a
  \<open>Map\<close>: a name already present keeps its place and takes the new entry.
\<close>

definition server_tool ::
  "string \<Rightarrow> string \<Rightarrow> zobject
    \<Rightarrow> (env \<Rightarrow> jsval \<Rightarrow> request list \<Rightarrow> (thrown + envelope) \<times> request list)
    \<Rightarrow> (string \<times> tool) list \<Rightarrow> (string \<times> tool) list" where
  "server_tool nm descr sch h tools =
     AList.update nm \<lparr>tool_name = nm, description = descr, schema = sch, handler = h\<rparr> tools"

definition registerCatalogTools :: "(string \<times> tool) list \<Rightarrow> (string \<times> tool) list" where
  "registerCatalogTools tools =
     server_tool ''get_code_list_entries'' ''Get entries from a code list concept''
       schemas_getCodeListEntriesSchema catalog_getCodeListEntries tools"

definition registerConceptTools :: "(string \<times> tool) list \<Rightarrow> (string \<times> tool) list" where
  "registerConceptTools tools =
     server_tool ''get_code_list_entries'' ''Get entries from a code list concept''
       getCodeListEntriesSchema tool_getCodeListEntries
       (server_tool ''get_concept'' ''Get detailed information about a specific concept by ID''
          getConceptSchema tool_getConcept
          (server_tool ''search_concepts'' ''Search for concepts in the I14Y Interoperability Platform''
             searchConceptsSchema tool_searchConcepts tools))"

definition registerDatasetTools :: "(string \<times> tool) list \<Rightarrow> (string \<times> tool) list" where
  "registerDatasetTools tools =
     server_tool ''get_dataset'' ''Get detailed information about a specific dataset by ID''
       getDatasetSchema tool_getDataset
       (server_tool ''search_datasets'' ''Search for datasets in the I14Y Interoperability Platform''
          searchDatasetsSchema tool_searchDatasets tools)"

definition registerDataServiceTools :: "(string \<times> tool) list \<Rightarrow> (string \<times> tool) list" where
  "registerDataServiceTools tools =
     server_tool ''get_data_service'' ''Get detailed information about a specific data service by ID''
       getDataServiceSchema tool_getDataService
       (server_tool ''search_data_services''
          ''Search for data services (APIs) in the I14Y Interoperability Platform''
          searchDataServicesSchema tool_searchDataServices tools)"

definition registerPublicServiceTools :: "(string \<times> tool) list \<Rightarrow> (string \<times> tool) list" where
  "registerPublicServiceTools tools =
     server_tool ''get_public_service'' ''Get detailed information about a specific public service by ID''
       getPublicServiceSchema tool_getPublicService
       (server_tool ''search_public_services''
          ''Search for public services in the I14Y Interoperability Platform''
          searchPublicServicesSchema tool_searchPublicServices tools)"

text \<open>The registry after the five registrations of \<open>index.js\<close>, in their order.\<close>

definition tools :: "(string \<times> tool) list" where
  "tools =
     registerPublicServiceTools
       (registerDataServiceTools
          (registerDatasetTools
             (registerConceptTools
                (registerCatalogTools []))))"

text \<open>
  The handler of \<open>CallToolRequestSchema\<close>. An unknown name is thrown to the protocol layer.
  Otherwise the arguments are parsed against the registered schema and handed to the
  registered handler; whatever either throws is caught and rendered.
\<close>

definition callTool ::
  "env \<Rightarrow> string \<Rightarrow> jsval \<Rightarrow> request list \<Rightarrow> (thrown + envelope) \<times> request list" where
  "callTool ev nm args sent =
     (case map_of tools nm of
        None \<Rightarrow> (Inl (new_Error (''Unknown tool: '' @ nm)), sent)
      | Some entry \<Rightarrow>
          (case parse ev (schema entry) args of
             Inl error \<Rightarrow> (message_envelope (''Error executing '' @ nm @ '': '') error, sent)
           | Inr validatedArgs \<Rightarrow>
               (case handler entry ev (JObj validatedArgs) sent of
                  (Inl error, sent') \<Rightarrow>
                    (message_envelope (''Error executing '' @ nm @ '': '') error, sent')
                | (Inr result, sent') \<Rightarrow> (Inr result, sent'))))"

section \<open>Auxiliary notions for the proofs\<close>

text \<open>
  The shape of an object that \<open>_buildSearchParams\<close> has filled with non-empty strings:
  distinct keys, none of them \<open>__proto__\<close>.
\<close>

definition canonical :: "(string \<times> string) list \<Rightarrow> bool" where
  "canonical obj \<longleftrightarrow>
     distinct (map fst obj) \<and> ''__proto__'' \<notin> fst ` set obj \<and> (\<forall>(k, t) \<in> set obj. t \<noteq> [])"

text \<open>
  The table of the specification's error normalizer, in its words: the message suffix for
  each upstream status that has one.
\<close>

definition spec_status_suffix :: "int \<Rightarrow> string option" where
  "spec_status_suffix s =
     (if s = 400 then Some ''Bad Request - Invalid parameters''
      else if s = 401 then Some ''Unauthorized''
      else if s = 403 then Some ''Forbidden''
      else if s = 404 then Some ''Resource not found''
      else if s \<ge> 500 then Some ''Server error''
      else None)"

text \<open>\<open>createMockError(message, status)\<close> of \<open>tests/setup.js\<close>: an \<open>Error\<close> with a response.\<close>

definition mock_error :: "string \<Rightarrow> int \<Rightarrow> js_error" where
  "mock_error m st =
     \<lparr>instance_of_Error = True, name = JStr ''Error'', message = JStr m,
      response = Some \<lparr>status = JNum st\<rparr>, issues = JUndefined\<rparr>"

text \<open>
  Notions for the dispatch proofs. A call has fetched when it issued exactly one request
  and the transport answered it with a body. A thrown value is printable when a \<open>catch\<close>
  block can read and render its message. The two invariants say what a client method and
  a tool handler leave behind.
\<close>

definition fetched :: "env \<Rightarrow> request list \<Rightarrow> request list \<Rightarrow> bool" where
  "fetched ev sent sent' \<longleftrightarrow> (\<exists>req body. sent' = sent @ [req] \<and> http ev req = Inr body)"

definition printable :: "thrown \<Rightarrow> bool" where
  "printable t \<longleftrightarrow> \<not> nullish t \<and> String (message_of t) \<noteq> None"

definition client_ok :: "env \<Rightarrow> request list \<Rightarrow> (thrown + jsval) \<times> request list \<Rightarrow> bool" where
  "client_ok ev sent res \<longleftrightarrow>
     (case res of
        (Inr body, sent') \<Rightarrow> fetched ev sent sent'
      | (Inl t, sent') \<Rightarrow> \<not> nullish t \<and> \<not> fetched ev sent sent')"

definition text_envelope :: "envelope \<Rightarrow> bool" where
  "text_envelope e \<longleftrightarrow> (\<exists>t. content e = [\<lparr>type = ''text'', text_value = t\<rparr>])"

definition handler_ok :: "env \<Rightarrow> request list \<Rightarrow> (thrown + envelope) \<times> request list \<Rightarrow> bool" where
  "handler_ok ev sent res \<longleftrightarrow>
     (case res of
        (Inr e, sent') \<Rightarrow>
          text_envelope e \<and>
          (if fetched ev sent sent' then isError e = None else isError e = Some True)
      | (Inl t, sent') \<Rightarrow> printable t \<and> \<not> fetched ev sent sent')"

text \<open>
  A stand-in for the outside world, in the manner of the mocks of \<open>tests/\<close>: the registry
  answers a concept search and nothing else, a string is read as a number when it is a
  plain run of digits, and the validation library prints the issues of a bad \<open>page\<close> as
  JSON.
\<close>

definition decimal_ge :: "string \<Rightarrow> int \<Rightarrow> bool" where
  "decimal_ge s n =
     (s \<noteq> [] \<and> list_all (\<lambda>c. c \<in> set ''0123456789'') s \<and>
      n \<le> int (foldl (\<lambda>a c. 10 * a + (of_char c - 48)) 0 s))"

definition stub_env :: env where
  \<open>stub_env =
     \<lparr>http = (\<lambda>req.
         if path req = ''concepts''
         then Inr (JObj [(''items'', JArr [JObj [(''id'', JStr ''1''), (''identifier'', JStr ''concept-1'')]]),
                         (''totalCount'', JNum 1)])
         else Inl (ThrownObj (mock_error ''Not Found'' 404))),
      JSON_stringify = (\<lambda>v. ''{}''),
      StringToNumber_ge = decimal_ge,
      is_uuid = (\<lambda>s. length s = 36),
      zod_issue = (\<lambda>i. case i of ZIssue c p \<Rightarrow> JObj [(''code'', JStr c), (''path'', JArr (map JStr p))]),
      zod_message = (\<lambda>iss.
         if iss = [ZIssue ''too_small'' [''page'']]
         then ''[\<newline>  {\<newline>    "code": "too_small",\<newline>    "minimum": 1,\<newline>    "type": "number",\<newline>    "inclusive": true,\<newline>    "exact": false,\<newline>    "message": "Number must be greater than or equal to 1",\<newline>    "path": [\<newline>      "page"\<newline>    ]\<newline>  }\<newline>]''
         else ''[]'')\<rparr>\<close>

text \<open>What a parsed field holds: nothing, a string or a number.\<close>

definition scalar :: "jsval \<Rightarrow> bool" where
  "scalar v \<longleftrightarrow> v = JUndefined \<or> (\<exists>s. v = JStr s) \<or> (\<exists>n. v = JNum n)"

section \<open>Properties of \<open>_buildSearchParams\<close>\<close>

lemma map_of_assign:
  "map_of (assign key s obj) k = (if key = ''__proto__'' then map_of obj k else ((map_of obj)(key \<mapsto> s)) k)"
  by (simp add: assign_def update_conv')

lemma distinct_assign: "distinct (map fst obj) \<Longrightarrow> distinct (map fst (assign key s obj))"
  by (simp add: assign_def distinct_update)

lemma proto_assign: "''__proto__'' \<notin> fst ` set obj \<Longrightarrow> ''__proto__'' \<notin> fst ` set (assign key s obj)"
  by (simp add: assign_def dom_update)

lemma values_assign:
  "s \<noteq> [] \<Longrightarrow> \<forall>(k, t) \<in> set obj. t \<noteq> [] \<Longrightarrow> \<forall>(k, t) \<in> set (assign key s obj). t \<noteq> []"
  unfolding assign_def
  by (induction obj) (auto)

lemma canonical_assign: "canonical obj \<Longrightarrow> s \<noteq> [] \<Longrightarrow> canonical (assign key s obj)"
proof -
  assume c: "canonical obj" and s: "s \<noteq> []"
  from c have d: "distinct (map fst obj)" and p: "''__proto__'' \<notin> fst ` set obj"
    and v: "\<forall>(k, t) \<in> set obj. t \<noteq> []" by (simp_all add: canonical_def)
  from d have "distinct (map fst (assign key s obj))" by (rule distinct_assign)
  moreover from p have "''__proto__'' \<notin> fst ` set (assign key s obj)" by (rule proto_assign)
  moreover from s v have "\<forall>(k, t) \<in> set (assign key s obj). t \<noteq> []" by (rule values_assign)
  ultimately show ?thesis by (simp add: canonical_def)
qed

lemma forEach_entry_canonical:
  assumes "forEach_entry es sp = Inr R" and "canonical sp"
    and "\<forall>(k, v) \<in> set es. \<not> dropped v \<longrightarrow> String v \<noteq> Some []"
  shows "canonical R"
  using assms
proof (induction es arbitrary: sp)
  case Nil
  then show ?case by simp
next
  case (Cons e es)
  obtain key v where e: "e = (key, v)" by (cases e)
  show ?case
  proof (cases "dropped v")
    case True
    with Cons e show ?thesis by (auto simp: dropped_def)
  next
    case False
    with Cons.prems e obtain s where s: "String v = Some s"
      and R: "forEach_entry es (assign key s sp) = Inr R"
      by (auto simp: dropped_def split: option.splits)
    from Cons.prems(3) e False s have "s \<noteq> []" by auto
    with Cons.prems(2) have "canonical (assign key s sp)" by (rule canonical_assign)
    with Cons.IH[OF R] Cons.prems(3) show ?thesis by simp
  qed
qed

lemma update_fresh: "k \<notin> fst ` set acc \<Longrightarrow> AList.update k s acc = acc @ [(k, s)]"
  by (induction acc) auto

lemma forEach_entry_replay:
  assumes "canonical R" and "fst ` set acc \<inter> fst ` set R = {}"
  shows "forEach_entry (as_params R) acc = Inr (acc @ R)"
  using assms
proof (induction R arbitrary: acc)
  case Nil
  then show ?case by (simp add: as_params_def)
next
  case (Cons e R)
  obtain k s where e: "e = (k, s)" by (cases e)
  from Cons.prems e have s: "s \<noteq> []" and k: "k \<noteq> ''__proto__''" and fresh: "k \<notin> fst ` set acc"
    and R: "canonical R" and kR: "k \<notin> fst ` set R"
    by (auto simp: canonical_def)
  have step: "assign k s acc = acc @ [(k, s)]"
    using k fresh by (simp add: assign_def update_fresh)
  have "fst ` set (acc @ [(k, s)]) \<inter> fst ` set R = {}"
    using Cons.prems(2) kR e by auto
  from Cons.IH[OF R this] have "forEach_entry (as_params R) (acc @ [(k, s)]) = Inr (acc @ (k, s) # R)"
    by simp
  then show ?case using e s step by (simp add: as_params_def)
qed

lemma digits_nonempty: "digits n \<noteq> []"
  by (subst digits.simps) simp

lemma Number_toString_nonempty: "Number_toString i \<noteq> []"
  by (simp add: Number_toString_def digits_nonempty)

lemma falsy_prop_assign: "s \<noteq> [] \<Longrightarrow> key \<noteq> ''__proto__'' \<Longrightarrow> \<not> falsy_prop (assign key s obj) key"
  by (simp add: falsy_prop_def map_of_assign)

lemma falsy_prop_assign_other:
  "key' \<noteq> key \<Longrightarrow> falsy_prop (assign key s obj) key' = falsy_prop obj key'"
  by (simp add: falsy_prop_def map_of_assign)

lemma buildSearchParams_canonical:
  assumes "buildSearchParams P dp dps = Inr R"
    and "\<forall>(k, v) \<in> set P. \<not> dropped v \<longrightarrow> String v \<noteq> Some []"
  shows "canonical R \<and> \<not> falsy_prop R ''page'' \<and> \<not> falsy_prop R ''pageSize''"
proof -
  from assms(1) obtain sp where sp: "forEach_entry P [] = Inr sp"
    by (auto simp: buildSearchParams_def split: sum.splits)
  have "canonical []" by (simp add: canonical_def)
  from forEach_entry_canonical[OF sp this assms(2)] have c: "canonical sp" .
  define sp1 where "sp1 = (if falsy_prop sp ''page'' then assign ''page'' (Number_toString dp) sp else sp)"
  have c1: "canonical sp1"
    using c by (simp add: sp1_def canonical_assign Number_toString_nonempty)
  have p1: "\<not> falsy_prop sp1 ''page''"
    by (simp add: sp1_def falsy_prop_assign Number_toString_nonempty)
  from assms(1) sp have R: "R = (if falsy_prop sp1 ''pageSize'' then assign ''pageSize'' (Number_toString dps) sp1 else sp1)"
    unfolding buildSearchParams_def sp1_def Let_def by simp
  show ?thesis
  proof (cases "falsy_prop sp1 ''pageSize''")
    case True
    then have R': "R = assign ''pageSize'' (Number_toString dps) sp1" using R by simp
    have "canonical R" unfolding R' using c1 Number_toString_nonempty by (rule canonical_assign)
    moreover have "\<not> falsy_prop R ''pageSize''" unfolding R'
      by (rule falsy_prop_assign) (simp_all add: Number_toString_nonempty)
    moreover have "\<not> falsy_prop R ''page''" unfolding R'
      using p1 by (simp add: falsy_prop_assign_other)
    ultimately show ?thesis by simp
  next
    case False
    then show ?thesis using R c1 p1 by simp
  qed
qed

lemma buildSearchParams_idem:
  assumes "buildSearchParams P dp dps = Inr R"
    and "\<forall>(k, v) \<in> set P. \<not> dropped v \<longrightarrow> String v \<noteq> Some []"
  shows "buildSearchParams (as_params R) dp' dps' = Inr R"
proof -
  from buildSearchParams_canonical[OF assms] have c: "canonical R"
    and p: "\<not> falsy_prop R ''page''" and q: "\<not> falsy_prop R ''pageSize''" by auto
  have "forEach_entry (as_params R) [] = Inr ([] @ R)"
    by (rule forEach_entry_replay[OF c]) simp
  then show ?thesis using p q by (simp add: buildSearchParams_def)
qed

lemma forEach_entry_map_of:
  assumes "forEach_entry es sp = Inr R" and "distinct (map fst es)"
  shows "map_of R k =
     (case map_of es k of
        Some v \<Rightarrow> if dropped v \<or> k = ''__proto__'' then map_of sp k else String v
      | None \<Rightarrow> map_of sp k)"
  using assms
proof (induction es arbitrary: sp)
  case Nil
  then show ?case by simp
next
  case (Cons e es)
  obtain key v where e: "e = (key, v)" by (cases e)
  from Cons.prems e have none: "map_of es key = None"
    by (simp add: map_of_eq_None_iff)
  show ?case
  proof (cases "dropped v")
    case True
    with Cons e have "forEach_entry es sp = Inr R" by (auto simp: dropped_def)
    with Cons have "map_of R k = (case map_of es k of
        Some v \<Rightarrow> if dropped v \<or> k = ''__proto__'' then map_of sp k else String v
      | None \<Rightarrow> map_of sp k)" by simp
    then show ?thesis using True e none by auto
  next
    case False
    with Cons.prems e obtain s where s: "String v = Some s"
      and R: "forEach_entry es (assign key s sp) = Inr R"
      by (auto simp: dropped_def split: option.splits)
    from Cons.IH[OF R] Cons.prems have IH: "map_of R k = (case map_of es k of
        Some v \<Rightarrow> if dropped v \<or> k = ''__proto__'' then map_of (assign key s sp) k else String v
      | None \<Rightarrow> map_of (assign key s sp) k)" by simp
    show ?thesis using IH none False s e
      by (auto simp: map_of_assign split: option.splits)
  qed
qed

lemma forEach_entry_untouched:
  assumes "forEach_entry es sp = Inr R" and "\<forall>v. (k, v) \<in> set es \<longrightarrow> dropped v"
  shows "map_of R k = map_of sp k"
  using assms
proof (induction es arbitrary: sp)
  case Nil
  then show ?case by simp
next
  case (Cons e es)
  obtain key v where e: "e = (key, v)" by (cases e)
  show ?case
  proof (cases "dropped v")
    case True
    with Cons e show ?thesis by (auto simp: dropped_def)
  next
    case False
    with Cons.prems e obtain s where s: "String v = Some s"
      and R: "forEach_entry es (assign key s sp) = Inr R"
      by (auto simp: dropped_def split: option.splits)
    from Cons.prems(2) e False have "key \<noteq> k" by auto
    then have "map_of (assign key s sp) k = map_of sp k" by (simp add: map_of_assign)
    with Cons.IH[OF R] Cons.prems(2) show ?thesis by simp
  qed
qed

lemma forEach_entry_total:
  assumes "\<forall>(k, v) \<in> set es. \<not> dropped v \<longrightarrow> String v \<noteq> None"
  shows "\<exists>R. forEach_entry es sp = Inr R"
  using assms
  by (induction es arbitrary: sp) (auto simp: dropped_def split: option.splits)

lemma buildSearchParams_total:
  assumes "\<forall>(k, v) \<in> set P. \<not> dropped v \<longrightarrow> String v \<noteq> None"
  shows "\<exists>R. buildSearchParams P dp dps = Inr R"
proof -
  from forEach_entry_total[OF assms] obtain sp where "forEach_entry P [] = Inr sp" by blast
  then show ?thesis by (simp add: buildSearchParams_def Let_def)
qed

lemma buildSearchParams_map_of:
  assumes "buildSearchParams P dp dps = Inr R"
  obtains sp where "forEach_entry P [] = Inr sp"
    and "\<And>k. k \<noteq> ''page'' \<Longrightarrow> k \<noteq> ''pageSize'' \<Longrightarrow> map_of R k = map_of sp k"
    and "map_of R ''page'' = (if falsy_prop sp ''page'' then Some (Number_toString dp) else map_of sp ''page'')"
    and "map_of R ''pageSize'' = (if falsy_prop sp ''pageSize'' then Some (Number_toString dps) else map_of sp ''pageSize'')"
proof -
  from assms obtain sp where sp: "forEach_entry P [] = Inr sp"
    by (auto simp: buildSearchParams_def split: sum.splits)
  define sp1 where "sp1 = (if falsy_prop sp ''page'' then assign ''page'' (Number_toString dp) sp else sp)"
  from assms sp have R: "R = (if falsy_prop sp1 ''pageSize'' then assign ''pageSize'' (Number_toString dps) sp1 else sp1)"
    unfolding buildSearchParams_def sp1_def Let_def by simp
  have f: "falsy_prop sp1 ''pageSize'' = falsy_prop sp ''pageSize''"
    by (simp add: sp1_def falsy_prop_assign_other)
  have a: "map_of R k = map_of sp k" if "k \<noteq> ''page''" "k \<noteq> ''pageSize''" for k
    using that by (simp add: R sp1_def map_of_assign)
  have b: "map_of R ''page'' = (if falsy_prop sp ''page'' then Some (Number_toString dp) else map_of sp ''page'')"
    by (simp add: R sp1_def map_of_assign)
  have c: "map_of R ''pageSize'' = (if falsy_prop sp ''pageSize'' then Some (Number_toString dps) else map_of sp ''pageSize'')"
    unfolding R f by (simp add: sp1_def map_of_assign)
  from sp a b c show ?thesis by (rule that)
qed

lemma Number_toString_1: "Number_toString 1 = ''1''"
  by (simp add: Number_toString_def digits.simps digit_char_def)

lemma Number_toString_25: "Number_toString 25 = ''25''"
  by (simp add: Number_toString_def digits.simps digit_char_def)

text \<open>
  Claim C2, as the code has it. Let \<open>P\<close> be a raw parameter object (distinct keys) on which
  \<open>_buildSearchParams\<close> returns \<open>R\<close>, and let \<open>k\<close> be a key of \<open>P\<close> with value \<open>v\<close>.
  For every key other than \<open>page\<close>, \<open>pageSize\<close> and \<open>__proto__\<close>, \<open>R\<close> holds \<open>k\<close> with
  \<open>String(v)\<close> exactly when \<open>v\<close> is not \<open>null\<close>, \<open>undefined\<close> or \<open>""\<close>, and does not hold \<open>k\<close>
  otherwise. The keys \<open>page\<close> and \<open>pageSize\<close> are always present: with \<open>String(v)\<close> when \<open>v\<close> is
  kept and does not render as the empty string, with the default otherwise. The key
  \<open>__proto__\<close> never reaches \<open>R\<close>.
\<close>

theorem buildSearchParams_entries:
  assumes "distinct (map fst P)" and "(k, v) \<in> set P"
    and "buildSearchParams P defaultPage defaultPageSize = Inr R"
  shows "(\<not> dropped v \<longrightarrow> String v \<noteq> None) \<and>
         (k \<notin> {''page'', ''pageSize'', ''__proto__''} \<longrightarrow>
            map_of R k = (if dropped v then None else String v)) \<and>
         (k = ''page'' \<longrightarrow>
            map_of R k = (if dropped v \<or> String v = Some [] then Some (Number_toString defaultPage)
                          else String v)) \<and>
         (k = ''pageSize'' \<longrightarrow>
            map_of R k = (if dropped v \<or> String v = Some [] then Some (Number_toString defaultPageSize)
                          else String v)) \<and>
         (k = ''__proto__'' \<longrightarrow> map_of R k = None)"
proof -
  from assms(3) obtain sp where sp: "forEach_entry P [] = Inr sp"
    and other: "\<And>k. k \<noteq> ''page'' \<Longrightarrow> k \<noteq> ''pageSize'' \<Longrightarrow> map_of R k = map_of sp k"
    and page: "map_of R ''page'' = (if falsy_prop sp ''page'' then Some (Number_toString defaultPage) else map_of sp ''page'')"
    and pageSize: "map_of R ''pageSize'' = (if falsy_prop sp ''pageSize'' then Some (Number_toString defaultPageSize) else map_of sp ''pageSize'')"
    by (rule buildSearchParams_map_of) (rule that)
  from assms(1,2) have kv: "map_of P k = Some v" by simp
  have spk: "map_of sp k = (if dropped v \<or> k = ''__proto__'' then None else String v)"
    using forEach_entry_map_of[OF sp assms(1), of k] kv by simp
  have kept: "\<exists>s. String v = Some s" if "\<not> dropped v"
  proof (rule ccontr)
    assume "\<nexists>s. String v = Some s"
    then have n: "String v = None" by simp
    from assms(2) obtain xs ys where P: "P = xs @ (k, v) # ys" by (auto simp: in_set_conv_decomp)
    have "\<And>acc. forEach_entry P acc = Inr sp \<Longrightarrow> False"
      unfolding P using that n
    proof (induction xs)
      case Nil
      then show ?case by (simp add: dropped_def)
    next
      case (Cons a xs)
      then show ?case by (cases a) (auto split: if_splits option.splits)
    qed
    with sp show False by blast
  qed
  show ?thesis
  proof (intro conjI impI)
    assume "\<not> dropped v"
    then show "String v \<noteq> None" using kept by auto
  next
    assume "k \<notin> {''page'', ''pageSize'', ''__proto__''}"
    then show "map_of R k = (if dropped v then None else String v)"
      using other[of k] spk by simp
  next
    assume k: "k = ''page''"
    show "map_of R k = (if dropped v \<or> String v = Some [] then Some (Number_toString defaultPage) else String v)"
      using page spk kept unfolding k by (auto simp: falsy_prop_def)
  next
    assume k: "k = ''pageSize''"
    show "map_of R k = (if dropped v \<or> String v = Some [] then Some (Number_toString defaultPageSize) else String v)"
      using pageSize spk kept unfolding k by (auto simp: falsy_prop_def)
  next
    assume k: "k = ''__proto__''"
    show "map_of R k = None" using other[of k] spk unfolding k by simp
  qed
qed

theorem buildSearchParams_entries_witness:
  "distinct (map fst [(''conceptIdentifier'', JStr ''abc''), (''n'', JNum 0), (''b'', JBool False),
                      (''version'', JNull), (''page'', JStr [])]) \<and>
   (''n'', JNum 0) \<in> set [(''conceptIdentifier'', JStr ''abc''), (''n'', JNum 0), (''b'', JBool False),
                      (''version'', JNull), (''page'', JStr [])] \<and>
   buildSearchParams [(''conceptIdentifier'', JStr ''abc''), (''n'', JNum 0), (''b'', JBool False),
                      (''version'', JNull), (''page'', JStr [])] 1 25 =
     Inr [(''conceptIdentifier'', ''abc''), (''n'', ''0''), (''b'', ''false''), (''page'', ''1''),
          (''pageSize'', ''25'')] \<and>
   ''n'' \<notin> {''page'', ''pageSize'', ''__proto__''} \<and>
   map_of [(''conceptIdentifier'', ''abc''), (''n'', ''0''), (''b'', ''false''), (''page'', ''1''),
           (''pageSize'', ''25'')] ''n'' = Some ''0''"
proof -
  let ?P = "[(''conceptIdentifier'', JStr ''abc''), (''n'', JNum 0), (''b'', JBool False),
             (''version'', JNull), (''page'', JStr [])]"
  let ?R = "[(''conceptIdentifier'', ''abc''), (''n'', ''0''), (''b'', ''false''), (''page'', ''1''),
             (''pageSize'', ''25'')]"
  have d: "distinct (map fst ?P)" by simp
  have m: "(''n'', JNum 0) \<in> set ?P" by simp
  have r: "buildSearchParams ?P 1 25 = Inr ?R" by code_simp
  have k: "''n'' \<notin> {''page'', ''pageSize'', ''__proto__''}" by simp
  from buildSearchParams_entries[OF d m r] k
  have "map_of ?R ''n'' = (if dropped (JNum 0) then None else String (JNum 0))" by blast
  then have "map_of ?R ''n'' = Some ''0''" by simp
  with d m r k show ?thesis by blast
qed

text \<open>
  The claim as stated fails on \<open>{page: null}\<close>: the key \<open>page\<close>, whose value is \<open>null\<close>, is
  in the output, with the default.
\<close>

theorem buildSearchParams_dropped_page_counterexample:
  "(''page'', JNull) \<in> set [(''page'', JNull)] \<and>
   buildSearchParams [(''page'', JNull)] 1 25 = Inr [(''page'', ''1''), (''pageSize'', ''25'')] \<and>
   map_of [(''page'', ''1''), (''pageSize'', ''25'')] ''page'' = Some ''1''"
  by code_simp

text \<open>
  Claim C3, as the code has it. When \<open>_buildSearchParams\<close> with the defaults 1 and 25
  returns \<open>R\<close> for an object that lacks \<open>page\<close> (or maps it to a dropped value), \<open>R\<close> has
  \<open>page = "1"\<close>; the same for \<open>pageSize\<close> and \<open>"25"\<close>. When every kept value of \<open>P\<close> renders as
  a non-empty string (every string, number and boolean does), the function returns and
  running it again on its result gives the same result.
\<close>

theorem buildSearchParams_defaults_idempotent:
  "(buildSearchParams P 1 25 = Inr R \<longrightarrow>
      ((\<forall>v. (''page'', v) \<in> set P \<longrightarrow> dropped v) \<longrightarrow> map_of R ''page'' = Some ''1'') \<and>
      ((\<forall>v. (''pageSize'', v) \<in> set P \<longrightarrow> dropped v) \<longrightarrow> map_of R ''pageSize'' = Some ''25'')) \<and>
   ((\<forall>(k, v) \<in> set P. \<not> dropped v \<longrightarrow> (\<exists>s. String v = Some s \<and> s \<noteq> [])) \<longrightarrow>
      (\<exists>R'. buildSearchParams P 1 25 = Inr R' \<and> buildSearchParams (as_params R') 1 25 = Inr R'))"
proof (intro conjI impI)
  assume R: "buildSearchParams P 1 25 = Inr R"
  then obtain sp where sp: "forEach_entry P [] = Inr sp"
    and page: "map_of R ''page'' = (if falsy_prop sp ''page'' then Some (Number_toString 1) else map_of sp ''page'')"
    and pageSize: "map_of R ''pageSize'' = (if falsy_prop sp ''pageSize'' then Some (Number_toString 25) else map_of sp ''pageSize'')"
    by (rule buildSearchParams_map_of) (rule that)
  {
    assume "\<forall>v. (''page'', v) \<in> set P \<longrightarrow> dropped v"
    from forEach_entry_untouched[OF sp this] have "falsy_prop sp ''page''"
      by (simp add: falsy_prop_def)
    then show "map_of R ''page'' = Some ''1''" using page by (simp add: Number_toString_1)
  }
  {
    assume "\<forall>v. (''pageSize'', v) \<in> set P \<longrightarrow> dropped v"
    from forEach_entry_untouched[OF sp this] have "falsy_prop sp ''pageSize''"
      by (simp add: falsy_prop_def)
    then show "map_of R ''pageSize'' = Some ''25''" using pageSize by (simp add: Number_toString_25)
  }
next
  assume h: "\<forall>(k, v) \<in> set P. \<not> dropped v \<longrightarrow> (\<exists>s. String v = Some s \<and> s \<noteq> [])"
  then have "\<forall>(k, v) \<in> set P. \<not> dropped v \<longrightarrow> String v \<noteq> None" by fastforce
  from buildSearchParams_total[OF this] obtain R' where R': "buildSearchParams P 1 25 = Inr R'"
    by blast
  from h have "\<forall>(k, v) \<in> set P. \<not> dropped v \<longrightarrow> String v \<noteq> Some []" by fastforce
  from buildSearchParams_idem[OF R' this] have "buildSearchParams (as_params R') 1 25 = Inr R'" .
  with R' show "\<exists>R'. buildSearchParams P 1 25 = Inr R' \<and> buildSearchParams (as_params R') 1 25 = Inr R'"
    by blast
qed

theorem buildSearchParams_defaults_idempotent_witness:
  "buildSearchParams [(''publisherIdentifier'', JStr ''CH1''), (''version'', JUndefined)] 1 25 =
     Inr [(''publisherIdentifier'', ''CH1''), (''page'', ''1''), (''pageSize'', ''25'')] \<and>
   map_of [(''publisherIdentifier'', ''CH1''), (''page'', ''1''), (''pageSize'', ''25'')] ''page'' = Some ''1'' \<and>
   map_of [(''publisherIdentifier'', ''CH1''), (''page'', ''1''), (''pageSize'', ''25'')] ''pageSize'' = Some ''25'' \<and>
   buildSearchParams
     (as_params [(''publisherIdentifier'', ''CH1''), (''page'', ''1''), (''pageSize'', ''25'')]) 1 25 =
     Inr [(''publisherIdentifier'', ''CH1''), (''page'', ''1''), (''pageSize'', ''25'')]"
proof -
  let ?P = "[(''publisherIdentifier'', JStr ''CH1''), (''version'', JUndefined)]"
  let ?R = "[(''publisherIdentifier'', ''CH1''), (''page'', ''1''), (''pageSize'', ''25'')]"
  have r: "buildSearchParams ?P 1 25 = Inr ?R" by code_simp
  have p: "\<forall>v. (''page'', v) \<in> set ?P \<longrightarrow> dropped v" by simp
  have q: "\<forall>v. (''pageSize'', v) \<in> set ?P \<longrightarrow> dropped v" by simp
  have h: "\<forall>(k, v) \<in> set ?P. \<not> dropped v \<longrightarrow> (\<exists>s. String v = Some s \<and> s \<noteq> [])"
    by (simp add: dropped_def)
  note t = buildSearchParams_defaults_idempotent[of ?P ?R]
  from t r p have 1: "map_of ?R ''page'' = Some ''1''" by blast
  from t r q have 2: "map_of ?R ''pageSize'' = Some ''25''" by blast
  from t h obtain R' where "buildSearchParams ?P 1 25 = Inr R'"
    and i: "buildSearchParams (as_params R') 1 25 = Inr R'" by blast
  with r have "R' = ?R" by simp
  with i have 3: "buildSearchParams (as_params ?R) 1 25 = Inr ?R" by simp
  from r 1 2 3 show ?thesis by blast
qed

text \<open>
  Idempotence as stated fails on \<open>{foo: []}\<close>: the empty array is kept and renders as the
  empty string, which the second run drops.
\<close>

theorem buildSearchParams_idempotent_counterexample:
  "buildSearchParams [(''foo'', JArr [])] 1 25 =
     Inr [(''foo'', []), (''page'', ''1''), (''pageSize'', ''25'')] \<and>
   buildSearchParams (as_params [(''foo'', []), (''page'', ''1''), (''pageSize'', ''25'')]) 1 25 =
     Inr [(''page'', ''1''), (''pageSize'', ''25'')] \<and>
   [(''page'', ''1''), (''pageSize'', ''25'')] \<noteq> [(''foo'', []), (''page'', ''1''), (''pageSize'', ''25'')]"
  by code_simp

section \<open>Properties of \<open>_handleError\<close> and \<open>formatPaginationInfo\<close>\<close>

text \<open>
  Claim C1, as the code has it. For an error object carrying the upstream status \<open>s\<close>, a
  number: when \<open>s\<close> is 400, 401, 403, 404 or at least 500, \<open>_handleError\<close> returns a new
  \<open>Error\<close> whose message is \<open>API request failed with status s: suffix\<close>, with the suffix of
  the specification's table, so the message contains \<open>String(s)\<close> and the suffix; for every
  other status it returns the error it was given, unchanged.
\<close>

theorem handleError_status:
  assumes "response e = Some r" and "status r = JNum s"
  shows "(\<forall>sfx. spec_status_suffix s = Some sfx \<longrightarrow>
            handleError ev (ThrownObj e) =
              Inr (new_Error (''API request failed with status '' @ Number_toString s @ '': '' @ sfx)) \<and>
            sublist (Number_toString s)
              (''API request failed with status '' @ Number_toString s @ '': '' @ sfx) \<and>
            sublist sfx
              (''API request failed with status '' @ Number_toString s @ '': '' @ sfx)) \<and>
         (spec_status_suffix s = None \<longrightarrow> handleError ev (ThrownObj e) = Inr (ThrownObj e))"
proof (intro conjI allI impI)
  fix sfx assume s: "spec_status_suffix s = Some sfx"
  show "handleError ev (ThrownObj e) =
      Inr (new_Error (''API request failed with status '' @ Number_toString s @ '': '' @ sfx))"
    using assms s
    by (auto simp: handleError_def nullish_def spec_status_suffix_def template_def Let_def
        split: if_splits)
  show "sublist (Number_toString s)
          (''API request failed with status '' @ Number_toString s @ '': '' @ sfx)"
    by (rule sublist_appendI)
  have "sublist sfx ((''API request failed with status '' @ Number_toString s @ '': '') @ sfx @ [])"
    by (rule sublist_appendI)
  then show "sublist sfx (''API request failed with status '' @ Number_toString s @ '': '' @ sfx)"
    by simp
next
  assume "spec_status_suffix s = None"
  then show "handleError ev (ThrownObj e) = Inr (ThrownObj e)"
    using assms
    by (auto simp: handleError_def nullish_def spec_status_suffix_def template_def Let_def
        split: if_splits)
qed

theorem handleError_status_witness:
  "response (mock_error ''Not Found'' 404) = Some \<lparr>status = JNum 404\<rparr> \<and>
   spec_status_suffix 404 = Some ''Resource not found'' \<and>
   handleError stub_env (ThrownObj (mock_error ''Not Found'' 404)) =
     Inr (new_Error ''API request failed with status 404: Resource not found'') \<and>
   spec_status_suffix 302 = None \<and>
   handleError stub_env (ThrownObj (mock_error ''Found'' 302)) = Inr (ThrownObj (mock_error ''Found'' 302))"
proof -
  have r: "response (mock_error ''Not Found'' 404) = Some \<lparr>status = JNum 404\<rparr>"
    by (simp add: mock_error_def)
  have st: "status \<lparr>status = JNum 404\<rparr> = JNum 404" by simp
  have s: "spec_status_suffix 404 = Some ''Resource not found''"
    by (simp add: spec_status_suffix_def)
  have n: "Number_toString 404 = ''404''"
    by (simp add: Number_toString_def digits.simps digit_char_def)
  from handleError_status[OF r st, of stub_env] s
  have 1: "handleError stub_env (ThrownObj (mock_error ''Not Found'' 404)) =
     Inr (new_Error (''API request failed with status '' @ Number_toString 404 @ '': '' @ ''Resource not found''))"
    by simp
  have r': "response (mock_error ''Found'' 302) = Some \<lparr>status = JNum 302\<rparr>"
    by (simp add: mock_error_def)
  have st': "status \<lparr>status = JNum 302\<rparr> = JNum 302" by simp
  have s': "spec_status_suffix 302 = None"
    by (simp add: spec_status_suffix_def)
  from handleError_status[OF r' st', of stub_env] s'
  have 2: "handleError stub_env (ThrownObj (mock_error ''Found'' 302)) = Inr (ThrownObj (mock_error ''Found'' 302))"
    by simp
  from r s 1 2 s' show ?thesis by (simp add: n)
qed

text \<open>
  The claim as stated fails on status 429: the error comes back as it was, and its message
  holds neither the status nor the generic text.
\<close>

theorem handleError_other_status_counterexample:
  "response (mock_error ''Too Many Requests'' 429) = Some \<lparr>status = JNum 429\<rparr> \<and>
   handleError stub_env (ThrownObj (mock_error ''Too Many Requests'' 429)) =
     Inr (ThrownObj (mock_error ''Too Many Requests'' 429)) \<and>
   message (mock_error ''Too Many Requests'' 429) = JStr ''Too Many Requests'' \<and>
   \<not> sublist ''429'' ''Too Many Requests'' \<and>
   \<not> sublist ''API request failed with status 429'' ''Too Many Requests''"
  by code_simp

text \<open>
  Claim C7. An error object with a truthy (non-empty) message and no response is returned
  by \<open>_handleError\<close> as it is.
\<close>

theorem handleError_passthrough:
  assumes "truthy (message e)" and "response e = None"
  shows "handleError ev (ThrownObj e) = Inr (ThrownObj e)"
  using assms by (simp add: handleError_def nullish_def)

theorem handleError_passthrough_witness:
  "truthy (message_of (new_Error ''Base URL is required'')) \<and>
   response_of (new_Error ''Base URL is required'') = None \<and>
   handleError stub_env (new_Error ''Base URL is required'') = Inr (new_Error ''Base URL is required'')"
proof -
  let ?e = "\<lparr>instance_of_Error = True, name = JStr ''Error'', message = JStr ''Base URL is required'',
             response = None, issues = JUndefined\<rparr>"
  have m: "truthy (message ?e)" by simp
  have r: "response ?e = None" by simp
  from handleError_passthrough[OF m r, of stub_env] show ?thesis by (simp add: new_Error_def)
qed

lemma ge_returns:
  assumes "String v = Some s"
  shows "\<exists>b. ge ev v n = Inr b"
proof (cases v)
  case (JStr x)
  then show ?thesis by simp
next
  case (JArr xs)
  with assms have "String (JArr xs) = Some s" by simp
  then show ?thesis unfolding JArr by (simp del: String.simps)
next
  case (JObj fs)
  with assms have "String (JObj fs) = Some s" by simp
  then show ?thesis unfolding JObj by (simp del: String.simps)
qed auto

lemma handleError_returns_aux:
  assumes "error \<noteq> ThrownUndefined" and "error \<noteq> ThrownNull"
    and "\<forall>r. response_of error = Some r \<longrightarrow> String (status r) \<noteq> None"
  shows "\<exists>v. handleError ev error = Inr v"
proof (cases "response_of error")
  case None
  with assms(1,2) show ?thesis by (simp add: handleError_def nullish_def)
next
  case (Some r)
  with assms(3) obtain s where s: "String (status r) = Some s" by auto
  then obtain b where b: "ge ev (status r) 500 = Inr b"
    using ge_returns by blast
  from assms(1,2) Some s b show ?thesis
    by (simp add: handleError_def nullish_def template_def Let_def)
qed

text \<open>
  Claim C8, as the code has it. For every caught value other than \<open>null\<close> and \<open>undefined\<close>
  (strings, numbers, booleans, objects with or without \<open>message\<close> and \<open>response\<close>) whose
  response status, when it carries a response, can be rendered as a string, \<open>_handleError\<close>
  returns a value and raises nothing.
\<close>

theorem handleError_returns:
  assumes "error \<noteq> ThrownUndefined" and "error \<noteq> ThrownNull"
    and "\<forall>r. response_of error = Some r \<longrightarrow> String (status r) \<noteq> None"
  shows "\<exists>v. handleError ev error = Inr v"
  using assms by (rule handleError_returns_aux)

lemma handleError_raises:
  "(\<exists>t. handleError ev error = Inl t) \<longleftrightarrow>
     error = ThrownUndefined \<or> error = ThrownNull \<or>
     (\<exists>r. response_of error = Some r \<and> String (status r) = None)"
proof (cases "error = ThrownUndefined \<or> error = ThrownNull")
  case True
  then show ?thesis by (auto simp: handleError_def nullish_def)
next
  case False
  show ?thesis
  proof (cases "\<exists>r. response_of error = Some r \<and> String (status r) = None")
    case True
    then show ?thesis using False
      by (auto simp: handleError_def nullish_def template_def Let_def)
  next
    case no: False
    with False have "\<exists>v. handleError ev error = Inr v"
      by (intro handleError_returns_aux) auto
    with False no show ?thesis by auto
  qed
qed

theorem handleError_returns_witness:
  "ThrownObj (mock_error ''Found'' 302) \<noteq> ThrownUndefined \<and>
   ThrownObj (mock_error ''Found'' 302) \<noteq> ThrownNull \<and>
   response_of (ThrownObj (mock_error ''Found'' 302)) = Some \<lparr>status = JNum 302\<rparr> \<and>
   String (JNum 302) = Some ''302'' \<and>
   (\<exists>v. handleError stub_env (ThrownObj (mock_error ''Found'' 302)) = Inr v) \<and>
   (\<exists>v. handleError stub_env (ThrownStr ''boom'') = Inr v)"
proof -
  have r: "response_of (ThrownObj (mock_error ''Found'' 302)) = Some \<lparr>status = JNum 302\<rparr>"
    by (simp add: mock_error_def)
  have n: "String (JNum 302) = Some ''302''"
    by (simp add: Number_toString_def digits.simps digit_char_def)
  have h: "\<forall>r. response_of (ThrownObj (mock_error ''Found'' 302)) = Some r \<longrightarrow> String (status r) \<noteq> None"
    using r n by auto
  have 1: "\<exists>v. handleError stub_env (ThrownObj (mock_error ''Found'' 302)) = Inr v"
    by (rule handleError_returns) (simp_all add: h)
  have 2: "\<exists>v. handleError stub_env (ThrownStr ''boom'') = Inr v"
    by (rule handleError_returns) simp_all
  from r n 1 2 show ?thesis by simp
qed

text \<open>
  The claim as stated fails on \<open>null\<close> and \<open>undefined\<close>, where reading \<open>error.message\<close>
  raises a \<open>TypeError\<close>, and on \<open>{response: {status: {toString: 1}}}\<close>, where the template
  literal that renders the status raises one.
\<close>

theorem handleError_null_counterexample:
  "handleError stub_env ThrownNull =
     Inl (TypeError (''Cannot read properties of null (reading '' @ [CHR 0x27] @ ''message'' @ [CHR 0x27] @ '')'')) \<and>
   handleError stub_env ThrownUndefined =
     Inl (TypeError (''Cannot read properties of undefined (reading '' @ [CHR 0x27] @ ''message'' @ [CHR 0x27] @ '')'')) \<and>
   handleError stub_env
     (ThrownObj \<lparr>instance_of_Error = False, name = JUndefined, message = JUndefined,
                 response = Some \<lparr>status = JObj [(''toString'', JNum 1)]\<rparr>, issues = JUndefined\<rparr>) =
     Inl (TypeError ''Cannot convert object to primitive value'')"
  by (simp add: handleError_def nullish_def cannot_read_def template_def cannot_convert_def)

text \<open>
  Claim C10. For \<open>pageSize \<ge> 1\<close>, \<open>formatPaginationInfo\<close> returns
  \<open>totalPages = ceil(totalItems / pageSize)\<close>, the least number of pages that hold all
  items; \<open>hasNextPage = (page < totalPages - 1)\<close>, which says that items remain after the
  page of index \<open>page\<close> when pages are counted from 0; and \<open>hasPreviousPage = (page > 0)\<close>.
\<close>

theorem formatPaginationInfo_zero_indexed:
  assumes "psize \<ge> 1"
  shows "\<exists>r. formatPaginationInfo pg psize items = Some r \<and>
           totalPages r = \<lceil>real_of_int items / real_of_int psize\<rceil> \<and>
           (totalPages r - 1) * psize < items \<and> items \<le> totalPages r * psize \<and>
           hasNextPage r = (pg < totalPages r - 1) \<and>
           hasNextPage r = ((pg + 1) * psize < items) \<and>
           hasPreviousPage r = (pg > 0) \<and>
           page r = pg \<and> pageSize r = psize \<and> totalItems r = items"
proof -
  define n where "n = \<lceil>real_of_int items / real_of_int psize\<rceil>"
  from assms have pos: "0 < real_of_int psize" by simp
  have up: "real_of_int items / real_of_int psize \<le> real_of_int n"
    unfolding n_def by (rule le_of_int_ceiling)
  then have "real_of_int items \<le> real_of_int n * real_of_int psize"
    using pos by (simp add: pos_divide_le_eq)
  then have a: "items \<le> n * psize"
    by (metis of_int_le_iff of_int_mult)
  have "real_of_int (n - 1) < real_of_int items / real_of_int psize"
    unfolding n_def by linarith
  then have "real_of_int (n - 1) * real_of_int psize < real_of_int items"
    using pos by (simp add: pos_less_divide_eq)
  then have b: "(n - 1) * psize < items"
    by (metis of_int_less_iff of_int_mult)
  have "(pg < n - 1) = (real_of_int (pg + 1) < real_of_int items / real_of_int psize)"
    unfolding n_def by (simp add: less_ceiling_iff) linarith
  also have "\<dots> = (real_of_int (pg + 1) * real_of_int psize < real_of_int items)"
    using pos by (simp add: pos_less_divide_eq)
  also have "\<dots> = ((pg + 1) * psize < items)"
    by (metis of_int_less_iff of_int_mult)
  finally have c: "(pg < n - 1) = ((pg + 1) * psize < items)" .
  from assms have "psize \<noteq> 0" by simp
  then have "formatPaginationInfo pg psize items =
      Some \<lparr>page = pg, pageSize = psize, totalItems = items, totalPages = n,
            hasNextPage = (pg < n - 1), hasPreviousPage = (pg > 0)\<rparr>"
    by (simp add: formatPaginationInfo_def n_def Let_def)
  with a b c show ?thesis by (simp add: n_def)
qed

theorem formatPaginationInfo_zero_indexed_witness:
  "(25::int) \<ge> 1 \<and>
   formatPaginationInfo 3 25 100 =
     Some \<lparr>page = 3, pageSize = 25, totalItems = 100, totalPages = 4,
           hasNextPage = False, hasPreviousPage = True\<rparr>"
proof -
  have h: "(25::int) \<ge> 1" by simp
  from formatPaginationInfo_zero_indexed[OF h, of 3 100]
  obtain r where "formatPaginationInfo 3 25 100 = Some r" by blast
  then show ?thesis by (simp add: formatPaginationInfo_def)
qed

section \<open>Properties of the tool handlers and of the dispatcher\<close>

lemma not_fetched_same: "\<not> fetched ev sent sent"
  by (simp add: fetched_def)

lemma fetched_snoc: "fetched ev sent (sent @ [req]) \<longleftrightarrow> (\<exists>body. http ev req = Inr body)"
  by (auto simp: fetched_def)

lemma not_nullish_TypeError: "\<not> nullish (TypeError m)"
  by (simp add: nullish_def TypeError_def)

lemma not_nullish_new_Error: "\<not> nullish (new_Error m)"
  by (simp add: nullish_def new_Error_def)

lemma printable_TypeError: "printable (TypeError m)"
  by (simp add: printable_def nullish_def TypeError_def)

lemma printable_cannot_convert: "printable cannot_convert"
  by (simp add: cannot_convert_def printable_TypeError)

lemma printable_cannot_read: "printable (cannot_read e p)"
  by (simp add: cannot_read_def printable_TypeError)

lemma printable_ZodError: "printable (ZodError ev iss)"
  by (simp add: printable_def nullish_def ZodError_def)

lemma not_nullish_ZodError: "\<not> nullish (ZodError ev iss)"
  by (simp add: nullish_def ZodError_def)

lemma handleError_cases:
  "handleError ev e = Inr e \<or> (\<exists>m. handleError ev e = Inr (new_Error m)) \<or>
   (\<exists>m. handleError ev e = Inl (TypeError m))"
proof (cases "\<exists>r. response_of e = Some r \<and> String (status r) = None")
  case True
  then show ?thesis
    by (auto simp: handleError_def cannot_read_def template_def cannot_convert_def Let_def)
next
  case False
  show ?thesis
  proof (cases "nullish e")
    case True
    then have "handleError ev e = Inl (cannot_read e ''message'')"
      by (simp add: handleError_def)
    then show ?thesis unfolding cannot_read_def by blast
  next
    case n: False
    show ?thesis
    proof (cases "response_of e")
      case None
      with n show ?thesis by (simp add: handleError_def)
    next
      case (Some r)
      with False obtain s where s: "String (status r) = Some s" by auto
      then obtain b where b: "ge ev (status r) 500 = Inr b" using ge_returns by blast
      have ne: "\<exists>m'. new_Error m = new_Error m'" for m by blast
      from n Some s b show ?thesis
        by (simp add: handleError_def template_def Let_def ne)
    qed
  qed
qed

lemma throw_handled_not_nullish: "\<not> nullish (throw_handled ev e)"
proof (cases "nullish e")
  case True
  then show ?thesis
    by (simp add: throw_handled_def handleError_def cannot_read_def not_nullish_TypeError)
next
  case False
  with handleError_cases[of ev e] show ?thesis
    by (auto simp: throw_handled_def not_nullish_new_Error not_nullish_TypeError)
qed

lemma get_by_id_ok: "client_ok ev sent (get_by_id ev pre ident opts sent)"
  by (auto simp: client_ok_def get_by_id_def client_get_def throw_handled_not_nullish
      not_fetched_same fetched_snoc split: sum.splits prod.splits)

lemma search_at_ok: "client_ok ev sent (search_at ev p params sent)"
  by (auto simp: client_ok_def search_at_def client_get_def throw_handled_not_nullish
      not_fetched_same fetched_snoc split: sum.splits prod.splits)

lemma client_getCodeListEntries_ok: "client_ok ev sent (client_getCodeListEntries ev ident params sent)"
  by (auto simp: client_ok_def client_getCodeListEntries_def client_get_def throw_handled_not_nullish
      not_fetched_same fetched_snoc split: sum.splits prod.splits)

lemma client_getConcept_ok: "client_ok ev sent (client_getConcept ev ident incl sent)"
  by (simp add: client_getConcept_def get_by_id_ok)

lemma client_getDataset_ok: "client_ok ev sent (client_getDataset ev ident lang sent)"
  by (simp add: client_getDataset_def get_by_id_ok)

lemma text_envelope_error: "text_envelope (error_envelope tx)"
  by (simp add: text_envelope_def error_envelope_def)

lemma isError_error_envelope: "isError (error_envelope tx) = Some True"
  by (simp add: error_envelope_def)

lemma text_envelope_formatSuccess: "text_envelope (formatSuccess ev data)"
  by (simp add: text_envelope_def formatSuccess_def)

lemma isError_formatSuccess: "isError (formatSuccess ev data) = None"
  by (simp add: formatSuccess_def)

lemma message_envelope_cases:
  assumes "\<not> nullish error"
  shows "(\<exists>tx. message_envelope pre error = Inr (error_envelope tx)) \<or>
         message_envelope pre error = Inl cannot_convert"
  using assms by (auto simp: message_envelope_def split: option.splits)

lemma message_envelope_ok:
  assumes "\<not> nullish error" and "\<not> fetched ev sent sent'"
  shows "handler_ok ev sent (message_envelope pre error, sent')"
  using message_envelope_cases[OF assms(1), of pre] assms(2)
  by (auto simp: handler_ok_def text_envelope_error isError_error_envelope printable_cannot_convert)

lemma get_prop_Inl: "get_prop v p = Inl t \<Longrightarrow> printable t"
  by (cases v) (auto simp: printable_cannot_read)

lemma path_join_Inl: "path_join v = Inl t \<Longrightarrow> printable t"
  by (cases v) (auto simp: printable_cannot_convert printable_TypeError split: option.splits)

lemma issue_line_Inl: "issue_line i = Inl t \<Longrightarrow> printable t"
  unfolding issue_line_def
  by (auto simp: printable_cannot_convert dest: get_prop_Inl path_join_Inl
      split: sum.splits option.splits if_splits)

lemma issue_lines_Inl: "issue_lines is = Inl t \<Longrightarrow> printable t"
  by (induction "is") (auto dest: issue_line_Inl split: sum.splits)

lemma formatError_message_Inl: "formatError_message e = Inl t \<Longrightarrow> printable t"
  unfolding formatError_message_def Let_def
  by (auto simp: printable_cannot_convert dest: issue_lines_Inl
      split: sum.splits option.splits if_splits jsval.splits)

lemma formatError_cases:
  "(\<exists>tx. formatError error = Inr (error_envelope tx)) \<or>
   (\<exists>t. formatError error = Inl t \<and> printable t)"
  unfolding formatError_def
  by (auto simp: printable_cannot_convert dest: formatError_message_Inl
      split: sum.splits option.splits thrown.splits)

lemma formatError_ok:
  assumes "\<not> fetched ev sent sent'"
  shows "handler_ok ev sent (formatError error, sent')"
  using formatError_cases[of error] assms
  by (auto simp: handler_ok_def text_envelope_error isError_error_envelope)

lemma parse_Inl: "parse ev shape args = Inl t \<Longrightarrow> \<not> nullish t"
  by (auto simp: parse_def not_nullish_ZodError split: jsval.splits prod.splits list.splits)

lemma success_ok:
  assumes "fetched ev sent sent'"
  shows "handler_ok ev sent (Inr (formatSuccess ev result), sent')"
  using assms by (simp add: handler_ok_def text_envelope_formatSuccess isError_formatSuccess)

lemma message_handler_ok:
  assumes c: "\<And>a. client_ok ev sent (c a)"
  shows "handler_ok ev sent
     (case parse ev shape args of
        Inl error \<Rightarrow> (message_envelope pre error, sent)
      | Inr a \<Rightarrow>
          (case c a of
             (Inl error, sent') \<Rightarrow> (message_envelope pre error, sent')
           | (Inr result, sent') \<Rightarrow> (Inr (formatSuccess ev result), sent')))"
proof (cases "parse ev shape args")
  case (Inl t)
  then show ?thesis
    by (simp add: message_envelope_ok parse_Inl not_fetched_same)
next
  case (Inr a)
  obtain r sent' where r: "c a = (r, sent')" by (cases "c a")
  from c[of a] r show ?thesis using Inr
    by (cases r) (simp_all add: client_ok_def message_envelope_ok success_ok)
qed

lemma formatError_handler_ok:
  assumes c: "\<And>a. client_ok ev sent (c a)"
  shows "handler_ok ev sent
     (case parse ev shape args of
        Inl error \<Rightarrow> (formatError error, sent)
      | Inr a \<Rightarrow>
          (case c a of
             (Inl error, sent') \<Rightarrow> (formatError error, sent')
           | (Inr result, sent') \<Rightarrow> (Inr (formatSuccess ev result), sent')))"
proof (cases "parse ev shape args")
  case (Inl t)
  then show ?thesis
    by (simp add: formatError_ok not_fetched_same)
next
  case (Inr a)
  obtain r sent' where r: "c a = (r, sent')" by (cases "c a")
  from c[of a] r show ?thesis using Inr
    by (cases r) (simp_all add: client_ok_def formatError_ok success_ok)
qed

lemma tool_searchConcepts_ok: "handler_ok ev sent (tool_searchConcepts ev args sent)"
  unfolding tool_searchConcepts_def client_searchConcepts_def
  by (rule message_handler_ok) (rule search_at_ok)

lemma tool_getConcept_ok: "handler_ok ev sent (tool_getConcept ev args sent)"
  unfolding tool_getConcept_def
  by (rule message_handler_ok[where c = "\<lambda>parsed. client_getConcept ev (field parsed ''id'') (JBool False) sent"])
     (rule client_getConcept_ok)

lemma tool_getCodeListEntries_ok: "handler_ok ev sent (tool_getCodeListEntries ev args sent)"
  unfolding tool_getCodeListEntries_def
  by (rule message_handler_ok[where c = "\<lambda>parsed. client_getConcept ev (field parsed ''id'') (JBool True) sent"])
     (rule client_getConcept_ok)

lemma tool_searchDatasets_ok: "handler_ok ev sent (tool_searchDatasets ev args sent)"
  unfolding tool_searchDatasets_def client_searchDatasets_def
  by (rule formatError_handler_ok) (rule search_at_ok)

lemma tool_getDataset_ok: "handler_ok ev sent (tool_getDataset ev args sent)"
  unfolding tool_getDataset_def
  by (rule formatError_handler_ok[where c = "\<lambda>parsed. client_getDataset ev (field parsed ''id'') (field parsed ''language'') sent"])
     (rule client_getDataset_ok)

lemma tool_searchDataServices_ok: "handler_ok ev sent (tool_searchDataServices ev args sent)"
  unfolding tool_searchDataServices_def client_searchDataServices_def
  by (rule message_handler_ok) (rule search_at_ok)

lemma tool_getDataService_ok: "handler_ok ev sent (tool_getDataService ev args sent)"
  unfolding tool_getDataService_def client_getDataService_def
  by (rule message_handler_ok[where c = "\<lambda>parsed. get_by_id ev ''dataservices/'' (field parsed ''id'') None sent"])
     (rule get_by_id_ok)

lemma tool_searchPublicServices_ok: "handler_ok ev sent (tool_searchPublicServices ev args sent)"
  unfolding tool_searchPublicServices_def client_searchPublicServices_def
  by (rule message_handler_ok) (rule search_at_ok)

lemma tool_getPublicService_ok: "handler_ok ev sent (tool_getPublicService ev args sent)"
  unfolding tool_getPublicService_def client_getPublicService_def
  by (rule message_handler_ok[where c = "\<lambda>parsed. get_by_id ev ''publicservices/'' (field parsed ''id'') None sent"])
     (rule get_by_id_ok)

lemma tools_eq:
  "tools =
     [(''get_code_list_entries'',
         \<lparr>tool_name = ''get_code_list_entries'', description = ''Get entries from a code list concept'',
          schema = getCodeListEntriesSchema, handler = tool_getCodeListEntries\<rparr>),
      (''search_concepts'',
         \<lparr>tool_name = ''search_concepts'',
          description = ''Search for concepts in the I14Y Interoperability Platform'',
          schema = searchConceptsSchema, handler = tool_searchConcepts\<rparr>),
      (''get_concept'',
         \<lparr>tool_name = ''get_concept'',
          description = ''Get detailed information about a specific concept by ID'',
          schema = getConceptSchema, handler = tool_getConcept\<rparr>),
      (''search_datasets'',
         \<lparr>tool_name = ''search_datasets'',
          description = ''Search for datasets in the I14Y Interoperability Platform'',
          schema = searchDatasetsSchema, handler = tool_searchDatasets\<rparr>),
      (''get_dataset'',
         \<lparr>tool_name = ''get_dataset'',
          description = ''Get detailed information about a specific dataset by ID'',
          schema = getDatasetSchema, handler = tool_getDataset\<rparr>),
      (''search_data_services'',
         \<lparr>tool_name = ''search_data_services'',
          description = ''Search for data services (APIs) in the I14Y Interoperability Platform'',
          schema = searchDataServicesSchema, handler = tool_searchDataServices\<rparr>),
      (''get_data_service'',
         \<lparr>tool_name = ''get_data_service'',
          description = ''Get detailed information about a specific data service by ID'',
          schema = getDataServiceSchema, handler = tool_getDataService\<rparr>),
      (''search_public_services'',
         \<lparr>tool_name = ''search_public_services'',
          description = ''Search for public services in the I14Y Interoperability Platform'',
          schema = searchPublicServicesSchema, handler = tool_searchPublicServices\<rparr>),
      (''get_public_service'',
         \<lparr>tool_name = ''get_public_service'',
          description = ''Get detailed information about a specific public service by ID'',
          schema = getPublicServiceSchema, handler = tool_getPublicService\<rparr>)]"
  by (simp add: tools_def registerPublicServiceTools_def registerDataServiceTools_def
      registerDatasetTools_def registerConceptTools_def registerCatalogTools_def server_tool_def)

lemma registered_handler_ok:
  assumes "(nm, entry) \<in> set tools"
  shows "handler_ok ev sent (handler entry ev args sent)"
proof -
  from assms have
    "handler entry = tool_getCodeListEntries \<or> handler entry = tool_searchConcepts \<or>
     handler entry = tool_getConcept \<or> handler entry = tool_searchDatasets \<or>
     handler entry = tool_getDataset \<or> handler entry = tool_searchDataServices \<or>
     handler entry = tool_getDataService \<or> handler entry = tool_searchPublicServices \<or>
     handler entry = tool_getPublicService"
    unfolding tools_eq by auto
  then show ?thesis
    using tool_getCodeListEntries_ok tool_searchConcepts_ok tool_getConcept_ok
      tool_searchDatasets_ok tool_getDataset_ok tool_searchDataServices_ok
      tool_getDataService_ok tool_searchPublicServices_ok tool_getPublicService_ok
    by (elim disjE) simp_all
qed

lemma caught_ok:
  assumes "printable t"
  shows "\<exists>tx. message_envelope pre t = Inr (error_envelope tx)"
  using assms by (auto simp: printable_def message_envelope_def split: option.splits)

lemma map_of_tools_get_code_list_entries:
  "map_of tools ''get_code_list_entries'' =
     Some \<lparr>tool_name = ''get_code_list_entries'', description = ''Get entries from a code list concept'',
           schema = getCodeListEntriesSchema, handler = tool_getCodeListEntries\<rparr>"
  by (simp add: tools_eq)

lemma map_of_tools_search_concepts:
  "map_of tools ''search_concepts'' =
     Some \<lparr>tool_name = ''search_concepts'',
          description = ''Search for concepts in the I14Y Interoperability Platform'',
          schema = searchConceptsSchema, handler = tool_searchConcepts\<rparr>"
  by (simp add: tools_eq)


lemma parse_getCodeListEntries_id:
  assumes "is_uuid ev ident"
  shows "parse ev getCodeListEntriesSchema (JObj [(''id'', JStr ident)]) =
           Inr [(''id'', JStr ident), (''page'', JNum 1), (''pageSize'', JNum 25)]"
  using assms by (simp add: parse_def getCodeListEntriesSchema_def field_def)

lemma parse_getCodeListEntries_validated:
  assumes "is_uuid ev ident"
  shows "parse ev getCodeListEntriesSchema
           (JObj [(''id'', JStr ident), (''page'', JNum 1), (''pageSize'', JNum 25)]) =
           Inr [(''id'', JStr ident), (''page'', JNum 1), (''pageSize'', JNum 25)]"
  using assms by (simp add: parse_def getCodeListEntriesSchema_def field_def)

text \<open>
  Claim C5, as the code has it. \<open>registerConceptTools\<close> registers
  \<open>get_code_list_entries\<close> after \<open>registerCatalogTools\<close> did, and replaces its entry. For a
  valid UUID \<open>id\<close>, calling the registered operation with \<open>{id}\<close> issues exactly one
  request, against \<open>concepts/{id}\<close> with the query \<open>{includeCodeListEntries: "true"}\<close>: the
  code-list-entries endpoint is not called and no \<open>page\<close> or \<open>pageSize\<close> is sent.
\<close>

theorem get_code_list_entries_request:
  assumes "is_uuid ev ident"
  shows "snd (callTool ev ''get_code_list_entries'' (JObj [(''id'', JStr ident)]) sent) =
           sent @ [\<lparr>path = ''concepts/'' @ ident,
                    searchParams = Some [(''includeCodeListEntries'', JStr ''true'')]\<rparr>]"
  by (simp add: callTool_def map_of_tools_get_code_list_entries
      parse_getCodeListEntries_id[OF assms] tool_getCodeListEntries_def
      parse_getCodeListEntries_validated[OF assms] field_def client_getConcept_def
      get_by_id_def template_def client_get_def split: sum.splits prod.splits)

text \<open>
  The handler of \<open>catalog-tools.js\<close>, which the registry no longer holds, is the one that
  calls the code-list-entries endpoint with the pagination defaults.
\<close>

lemma catalog_handler_request:
  "snd (catalog_getCodeListEntries ev (JObj [(''id'', JStr ident)]) sent) =
     sent @ [\<lparr>path = ''concepts/'' @ ident @ ''/codelistentries'',
              searchParams = Some [(''page'', JStr ''1''), (''pageSize'', JStr ''25'')]\<rparr>]"
proof -
  have b: "buildSearchParams [(''page'', JUndefined), (''pageSize'', JUndefined)] 1 25 =
      Inr [(''page'', ''1''), (''pageSize'', ''25'')]"
    by code_simp
  show ?thesis
    by (simp add: catalog_getCodeListEntries_def client_getCodeListEntries_def b template_def
        client_get_def as_params_def split: sum.splits prod.splits)
qed

theorem get_code_list_entries_request_witness:
  "is_uuid stub_env ''123e4567-e89b-12d3-a456-426614174000'' \<and>
   snd (callTool stub_env ''get_code_list_entries''
          (JObj [(''id'', JStr ''123e4567-e89b-12d3-a456-426614174000'')]) []) =
     [\<lparr>path = ''concepts/123e4567-e89b-12d3-a456-426614174000'',
       searchParams = Some [(''includeCodeListEntries'', JStr ''true'')]\<rparr>]"
proof -
  have u: "is_uuid stub_env ''123e4567-e89b-12d3-a456-426614174000''"
    by (simp add: stub_env_def)
  from get_code_list_entries_request[OF u, of "[]"] u show ?thesis by simp
qed

text \<open>
  The claim as stated fails: the request issued is not the one against
  \<open>concepts/{id}/codelistentries\<close> with the pagination defaults.
\<close>

theorem get_code_list_entries_counterexample:
  "is_uuid stub_env ''123e4567-e89b-12d3-a456-426614174000'' \<and>
   snd (callTool stub_env ''get_code_list_entries''
          (JObj [(''id'', JStr ''123e4567-e89b-12d3-a456-426614174000'')]) []) \<noteq>
     [\<lparr>path = ''concepts/123e4567-e89b-12d3-a456-426614174000/codelistentries'',
       searchParams = Some [(''page'', JStr ''1''), (''pageSize'', JStr ''25'')]\<rparr>]"
  by code_simp




lemma parse_searchConcepts_page_zero:
  "parse ev searchConceptsSchema (JObj [(''page'', JNum 0)]) =
     Inl (ZodError ev [ZIssue ''too_small'' [''page'']])"
  by (simp add: parse_def searchConceptsSchema_def field_def)

text \<open>
  Claim C9, as the code has it. Dispatching \<open>search_concepts\<close> with \<open>{page: 0}\<close> issues no
  request and returns an envelope with \<open>isError = true\<close> whose text is
  \<open>Error executing search_concepts: \<close> followed by the message of the validation library's
  error; calling the handler itself gives \<open>Error searching concepts: \<close> and the same
  message.
\<close>

theorem search_concepts_page_zero:
  "callTool ev ''search_concepts'' (JObj [(''page'', JNum 0)]) sent =
     (Inr \<lparr>content =
             [\<lparr>type = ''text'',
               text_value = JStr (''Error executing search_concepts: '' @
                             zod_message ev [ZIssue ''too_small'' [''page'']])\<rparr>],
           isError = Some True\<rparr>, sent) \<and>
   tool_searchConcepts ev (JObj [(''page'', JNum 0)]) sent =
     (Inr \<lparr>content =
             [\<lparr>type = ''text'',
               text_value = JStr (''Error searching concepts: '' @
                             zod_message ev [ZIssue ''too_small'' [''page'']])\<rparr>],
           isError = Some True\<rparr>, sent)"
  by (simp add: callTool_def map_of_tools_search_concepts parse_searchConcepts_page_zero
      tool_searchConcepts_def message_envelope_def ZodError_def nullish_def error_envelope_def)

theorem search_concepts_page_zero_witness:
  "fst (callTool stub_env ''search_concepts'' (JObj [(''page'', JNum 0)]) []) =
     Inr (error_envelope (''Error executing search_concepts: '' @
                          zod_message stub_env [ZIssue ''too_small'' [''page'']])) \<and>
   snd (callTool stub_env ''search_concepts'' (JObj [(''page'', JNum 0)]) []) = []"
  using search_concepts_page_zero[of stub_env "[]"] by (simp add: error_envelope_def)

text \<open>
  The claim as stated fails: with the message the validation library prints for this
  issue, the text does not mention \<open>Validation\<close>.
\<close>

theorem search_concepts_page_zero_counterexample:
  "(case fst (callTool stub_env ''search_concepts'' (JObj [(''page'', JNum 0)]) []) of
      Inr e \<Rightarrow> (case text_value (hd (content e)) of
                   JStr s \<Rightarrow> isError e = Some True \<and> \<not> sublist ''Validation'' s
                 | _ \<Rightarrow> False)
    | Inl t \<Rightarrow> False)"
  by code_simp

lemma parse_type_codes: "parse_type ev t w = Inl cs \<Longrightarrow> cs \<noteq> []"
  by (induction t arbitrary: w) (auto split: jsval.splits if_splits list.splits)

lemma parse_type_scalar: "parse_type ev t w = Inr v \<Longrightarrow> scalar v"
  by (induction t arbitrary: w)
     (auto simp: scalar_def split: jsval.splits if_splits list.splits)

lemma parse_type_undefined: "parse_type ev t w = Inr JUndefined \<Longrightarrow> w = JUndefined"
  by (induction t arbitrary: w) (auto split: jsval.splits if_splits list.splits)

lemma parse_type_idem: "parse_type ev t w = Inr v \<Longrightarrow> parse_type ev t v = Inr v"
proof (induction t arbitrary: w)
  case (ZDefault t d)
  let ?w = "if w = JUndefined then d else w"
  from ZDefault.prems have p: "parse_type ev t ?w = Inr v" by simp
  from ZDefault.IH[OF p] have i: "parse_type ev t v = Inr v" .
  show ?case
  proof (cases "v = JUndefined")
    case True
    with p have "parse_type ev t ?w = Inr JUndefined" by simp
    then have u: "?w = JUndefined" by (rule parse_type_undefined)
    then have "w = JUndefined" and "d = JUndefined" by (auto split: if_splits)
    with p True show ?thesis by simp
  next
    case False
    with i show ?thesis by simp
  qed
next
  case (ZNumber cs)
  then have "v = w" by (auto split: jsval.splits list.splits)
  with ZNumber show ?case by simp
qed (auto split: jsval.splits if_splits list.splits)

lemma scalar_String: "scalar v \<Longrightarrow> String v \<noteq> None"
  by (auto simp: scalar_def)

lemma parse_fields_issues:
  assumes "parse_fields ev ((key, t) # shape) fs = ([], out)"
  obtains v out_r where "parse_fields ev shape fs = ([], out_r)"
    and "parse_type ev t (field fs key) = Inr v"
    and "out = (if v \<noteq> JUndefined \<or> key \<in> fst ` set fs then (key, v) # out_r else out_r)"
proof -
  obtain iss out_r where r: "parse_fields ev shape fs = (iss, out_r)"
    by (cases "parse_fields ev shape fs")
  show ?thesis
  proof (cases "parse_type ev t (field fs key)")
    case (Inl cs)
    then have "cs \<noteq> []" by (rule parse_type_codes)
    with assms r Inl show ?thesis by simp
  next
    case (Inr v)
    with assms r have "iss = []"
      and "out = (if v \<noteq> JUndefined \<or> key \<in> fst ` set fs then (key, v) # out_r else out_r)"
      by simp_all
    with r Inr show ?thesis by (intro that[of out_r v]) simp_all
  qed
qed

lemma field_Cons: "field ((k, v) # fs) k' = (if k' = k then v else field fs k')"
  by (simp add: field_def)

lemma field_absent: "k \<notin> fst ` set fs \<Longrightarrow> field fs k = JUndefined"
proof -
  assume "k \<notin> fst ` set fs"
  then have "map_of fs k = None" by (simp add: map_of_eq_None_iff)
  then show ?thesis by (simp add: field_def)
qed

lemma parse_fields_keys:
  "parse_fields ev shape fs = (iss, out) \<Longrightarrow> fst ` set out \<subseteq> fst ` set shape"
proof (induction shape arbitrary: iss out)
  case Nil
  then show ?case by simp
next
  case (Cons a shape)
  obtain key t where a: "a = (key, t)" by (cases a)
  obtain iss' out_r where r: "parse_fields ev shape fs = (iss', out_r)"
    by (cases "parse_fields ev shape fs")
  from Cons.IH[OF r] have sub: "fst ` set out_r \<subseteq> fst ` set shape" .
  from Cons.prems a r have "set out \<subseteq> insert (key, field out key) (set out_r)"
    by (auto simp: field_Cons split: sum.splits if_splits)
  then have "fst ` set out \<subseteq> insert key (fst ` set out_r)" by force
  with sub have "fst ` set out \<subseteq> insert key (fst ` set shape)" by blast
  then show ?case using a by simp
qed

lemma parse_fields_scalar:
  "parse_fields ev shape fs = (iss, out) \<Longrightarrow> \<forall>(k, v) \<in> set out. scalar v"
proof (induction shape arbitrary: iss out)
  case Nil
  then show ?case by simp
next
  case (Cons a shape)
  obtain key t where a: "a = (key, t)" by (cases a)
  obtain iss' out_r where r: "parse_fields ev shape fs = (iss', out_r)"
    by (cases "parse_fields ev shape fs")
  from Cons.IH[OF r] have "\<forall>(k, v) \<in> set out_r. scalar v" .
  with Cons.prems a r show ?case
    by (auto split: sum.splits if_splits dest: parse_type_scalar)
qed

lemma parse_fields_replay:
  assumes "parse_fields ev shape fs = ([], out)" and "distinct (map fst shape)"
    and "\<forall>k \<in> fst ` set shape. field fs' k = field out k \<and> (k \<in> fst ` set fs' \<longleftrightarrow> k \<in> fst ` set out)"
  shows "parse_fields ev shape fs' = ([], out)"
  using assms
proof (induction shape arbitrary: out)
  case Nil
  then show ?case by simp
next
  case (Cons a shape)
  obtain key t where a: "a = (key, t)" by (cases a)
  from Cons.prems(1)[unfolded a] obtain v out_r where r: "parse_fields ev shape fs = ([], out_r)"
    and v: "parse_type ev t (field fs key) = Inr v"
    and out: "out = (if v \<noteq> JUndefined \<or> key \<in> fst ` set fs then (key, v) # out_r else out_r)"
    by (rule parse_fields_issues) (rule that)
  from Cons.prems(2) a have fresh: "key \<notin> fst ` set shape" and d: "distinct (map fst shape)"
    by auto
  from parse_fields_keys[OF r] fresh have nk: "key \<notin> fst ` set out_r" by auto
  have rest: "\<forall>k \<in> fst ` set shape. field fs' k = field out_r k \<and>
      (k \<in> fst ` set fs' \<longleftrightarrow> k \<in> fst ` set out_r)"
  proof
    fix k assume k: "k \<in> fst ` set shape"
    with fresh have ne: "k \<noteq> key" by auto
    from k a Cons.prems(3) have "field fs' k = field out k"
      and "k \<in> fst ` set fs' \<longleftrightarrow> k \<in> fst ` set out" by auto
    moreover from ne out have "field out k = field out_r k"
      by (simp add: field_Cons)
    moreover from ne out have "k \<in> fst ` set out \<longleftrightarrow> k \<in> fst ` set out_r"
      by auto
    ultimately show "field fs' k = field out_r k \<and> (k \<in> fst ` set fs' \<longleftrightarrow> k \<in> fst ` set out_r)"
      by simp
  qed
  from Cons.IH[OF r d rest] have r': "parse_fields ev shape fs' = ([], out_r)" .
  have fk: "field out key = v"
    using out nk by (auto simp: field_Cons field_absent)
  have mk: "key \<in> fst ` set out \<longleftrightarrow> v \<noteq> JUndefined \<or> key \<in> fst ` set fs"
    using out nk by auto
  from Cons.prems(3) a have "field fs' key = field out key"
    and "key \<in> fst ` set fs' \<longleftrightarrow> key \<in> fst ` set out" by auto
  with fk mk have f': "field fs' key = v"
    and m': "key \<in> fst ` set fs' \<longleftrightarrow> v \<noteq> JUndefined \<or> key \<in> fst ` set fs" by auto
  from parse_type_idem[OF v] have "parse_type ev t v = Inr v" .
  with r' f' m' out a show ?case by auto
qed

lemma parse_Inr:
  assumes "parse ev shape args = Inr out"
  obtains fs where "args = JObj fs" and "parse_fields ev shape fs = ([], out)"
  using assms
  by (auto simp: parse_def split: jsval.splits prod.splits list.splits)

lemma parse_idem:
  assumes "parse ev shape args = Inr out" and "distinct (map fst shape)"
  shows "parse ev shape (JObj out) = Inr out"
proof -
  from assms(1) obtain fs where f: "parse_fields ev shape fs = ([], out)"
    by (rule parse_Inr)
  from parse_fields_replay[OF f assms(2), of out] have "parse_fields ev shape out = ([], out)"
    by simp
  then show ?thesis by (simp add: parse_def)
qed

lemma parse_scalar:
  assumes "parse ev shape args = Inr out"
  shows "\<forall>(k, v) \<in> set out. scalar v"
proof -
  from assms obtain fs where "parse_fields ev shape fs = ([], out)" by (rule parse_Inr)
  then show ?thesis by (rule parse_fields_scalar)
qed

lemma parse_fields_field:
  assumes "parse_fields ev shape fs = ([], out)" and "distinct (map fst shape)"
    and "(k, t) \<in> set shape"
  shows "parse_type ev t (field fs k) = Inr (field out k)"
  using assms
proof (induction shape arbitrary: out)
  case Nil
  then show ?case by simp
next
  case (Cons a shape)
  obtain key t' where a: "a = (key, t')" by (cases a)
  from Cons.prems(1)[unfolded a] obtain v out_r where r: "parse_fields ev shape fs = ([], out_r)"
    and v: "parse_type ev t' (field fs key) = Inr v"
    and out: "out = (if v \<noteq> JUndefined \<or> key \<in> fst ` set fs then (key, v) # out_r else out_r)"
    by (rule parse_fields_issues) (rule that)
  from Cons.prems(2) a have fresh: "key \<notin> fst ` set shape" and d: "distinct (map fst shape)"
    by auto
  from parse_fields_keys[OF r] fresh have nk: "key \<notin> fst ` set out_r" by auto
  show ?case
  proof (cases "(k, t) = (key, t')")
    case True
    have "field out key = v" using out nk by (auto simp: field_Cons field_absent)
    with True v show ?thesis by simp
  next
    case False
    with Cons.prems(3) a have m: "(k, t) \<in> set shape" by auto
    with fresh have "k \<noteq> key" by force
    then have "field out k = field out_r k" using out by (simp add: field_Cons)
    with Cons.IH[OF r d m] show ?thesis by simp
  qed
qed

lemma parse_id_string:
  assumes "parse ev shape args = Inr out" and "distinct (map fst shape)"
    and "(''id'', ZString) \<in> set shape \<or> (''id'', ZStringUuid) \<in> set shape"
  shows "\<exists>s. field out ''id'' = JStr s"
proof -
  from assms(1) obtain fs where f: "parse_fields ev shape fs = ([], out)"
    by (rule parse_Inr)
  from assms(3) show ?thesis
  proof
    assume "(''id'', ZString) \<in> set shape"
    from parse_fields_field[OF f assms(2) this, symmetric] show ?thesis
      by (auto split: jsval.splits)
  next
    assume "(''id'', ZStringUuid) \<in> set shape"
    from parse_fields_field[OF f assms(2) this, symmetric] show ?thesis
      by (auto split: jsval.splits if_splits)
  qed
qed

lemma get_by_id_sends:
  assumes "ident = JStr s"
  shows "snd (get_by_id ev pre ident opts sent) = sent @ [\<lparr>path = pre @ s, searchParams = opts\<rparr>]"
  using assms
  by (simp add: get_by_id_def template_def client_get_def split: sum.splits prod.splits)

lemma search_at_sends:
  assumes "\<forall>(k, v) \<in> set params. scalar v"
  shows "\<exists>req. snd (search_at ev p params sent) = sent @ [req]"
proof -
  from assms have "\<forall>(k, v) \<in> set params. \<not> dropped v \<longrightarrow> String v \<noteq> None"
    by (auto dest: scalar_String)
  from buildSearchParams_total[OF this, of 1 25] obtain sp where
    "buildSearchParams params 1 25 = Inr sp" by blast
  then show ?thesis
    by (simp add: search_at_def client_get_def split: sum.splits prod.splits)
qed

lemma snd_message_handler:
  "snd (case p of
          Inl error \<Rightarrow> (message_envelope pre error, sent)
        | Inr a \<Rightarrow>
            (case c a of
               (Inl error, sent') \<Rightarrow> (message_envelope pre error, sent')
             | (Inr result, sent') \<Rightarrow> (Inr (formatSuccess ev result), sent'))) =
   (case p of Inl error \<Rightarrow> sent | Inr a \<Rightarrow> snd (c a))"
  by (simp split: sum.splits prod.splits)

lemma snd_formatError_handler:
  "snd (case p of
          Inl error \<Rightarrow> (formatError error, sent)
        | Inr a \<Rightarrow>
            (case c a of
               (Inl error, sent') \<Rightarrow> (formatError error, sent')
             | (Inr result, sent') \<Rightarrow> (Inr (formatSuccess ev result), sent'))) =
   (case p of Inl error \<Rightarrow> sent | Inr a \<Rightarrow> snd (c a))"
  by (simp split: sum.splits prod.splits)

lemma distinct_schemas:
  "distinct (map fst searchConceptsSchema)" "distinct (map fst getConceptSchema)"
  "distinct (map fst getCodeListEntriesSchema)" "distinct (map fst searchDatasetsSchema)"
  "distinct (map fst getDatasetSchema)" "distinct (map fst searchDataServicesSchema)"
  "distinct (map fst getDataServiceSchema)" "distinct (map fst searchPublicServicesSchema)"
  "distinct (map fst getPublicServiceSchema)"
  by (simp_all add: searchConceptsSchema_def getConceptSchema_def getCodeListEntriesSchema_def
      searchDatasetsSchema_def getDatasetSchema_def searchDataServicesSchema_def
      getDataServiceSchema_def searchPublicServicesSchema_def getPublicServiceSchema_def)

lemma tool_searchConcepts_sends:
  assumes "parse ev searchConceptsSchema args = Inr v"
  shows "\<exists>req. snd (tool_searchConcepts ev (JObj v) sent) = sent @ [req]"
  unfolding tool_searchConcepts_def client_searchConcepts_def snd_message_handler
  using parse_idem[OF assms distinct_schemas(1)] search_at_sends[OF parse_scalar[OF assms]]
  by simp

lemma tool_searchDatasets_sends:
  assumes "parse ev searchDatasetsSchema args = Inr v"
  shows "\<exists>req. snd (tool_searchDatasets ev (JObj v) sent) = sent @ [req]"
  unfolding tool_searchDatasets_def client_searchDatasets_def snd_formatError_handler
  using parse_idem[OF assms distinct_schemas(4)] search_at_sends[OF parse_scalar[OF assms]]
  by simp

lemma tool_searchDataServices_sends:
  assumes "parse ev searchDataServicesSchema args = Inr v"
  shows "\<exists>req. snd (tool_searchDataServices ev (JObj v) sent) = sent @ [req]"
  unfolding tool_searchDataServices_def client_searchDataServices_def snd_message_handler
  using parse_idem[OF assms distinct_schemas(6)] search_at_sends[OF parse_scalar[OF assms]]
  by simp

lemma tool_searchPublicServices_sends:
  assumes "parse ev searchPublicServicesSchema args = Inr v"
  shows "\<exists>req. snd (tool_searchPublicServices ev (JObj v) sent) = sent @ [req]"
  unfolding tool_searchPublicServices_def client_searchPublicServices_def snd_message_handler
  using parse_idem[OF assms distinct_schemas(8)] search_at_sends[OF parse_scalar[OF assms]]
  by simp

lemma tool_getConcept_sends:
  assumes "parse ev getConceptSchema args = Inr v"
  shows "\<exists>req. snd (tool_getConcept ev (JObj v) sent) = sent @ [req]"
proof -
  from parse_id_string[OF assms distinct_schemas(2)] obtain s where "field v ''id'' = JStr s"
    by (auto simp: getConceptSchema_def)
  then show ?thesis
    unfolding tool_getConcept_def snd_message_handler
    using parse_idem[OF assms distinct_schemas(2)]
    by (simp add: client_getConcept_def get_by_id_sends)
qed

lemma tool_getCodeListEntries_sends:
  assumes "parse ev getCodeListEntriesSchema args = Inr v"
  shows "\<exists>req. snd (tool_getCodeListEntries ev (JObj v) sent) = sent @ [req]"
proof -
  from parse_id_string[OF assms distinct_schemas(3)] obtain s where "field v ''id'' = JStr s"
    by (auto simp: getCodeListEntriesSchema_def)
  then show ?thesis
    unfolding tool_getCodeListEntries_def snd_message_handler
    using parse_idem[OF assms distinct_schemas(3)]
    by (simp add: client_getConcept_def get_by_id_sends)
qed

lemma tool_getDataset_sends:
  assumes "parse ev getDatasetSchema args = Inr v"
  shows "\<exists>req. snd (tool_getDataset ev (JObj v) sent) = sent @ [req]"
proof -
  from parse_id_string[OF assms distinct_schemas(5)] obtain s where "field v ''id'' = JStr s"
    by (auto simp: getDatasetSchema_def)
  then show ?thesis
    unfolding tool_getDataset_def snd_formatError_handler
    using parse_idem[OF assms distinct_schemas(5)]
    by (simp add: client_getDataset_def get_by_id_sends)
qed

lemma tool_getDataService_sends:
  assumes "parse ev getDataServiceSchema args = Inr v"
  shows "\<exists>req. snd (tool_getDataService ev (JObj v) sent) = sent @ [req]"
proof -
  from parse_id_string[OF assms distinct_schemas(7)] obtain s where "field v ''id'' = JStr s"
    by (auto simp: getDataServiceSchema_def)
  then show ?thesis
    unfolding tool_getDataService_def snd_message_handler
    using parse_idem[OF assms distinct_schemas(7)]
    by (simp add: client_getDataService_def get_by_id_sends)
qed

lemma tool_getPublicService_sends:
  assumes "parse ev getPublicServiceSchema args = Inr v"
  shows "\<exists>req. snd (tool_getPublicService ev (JObj v) sent) = sent @ [req]"
proof -
  from parse_id_string[OF assms distinct_schemas(9)] obtain s where "field v ''id'' = JStr s"
    by (auto simp: getPublicServiceSchema_def)
  then show ?thesis
    unfolding tool_getPublicService_def snd_message_handler
    using parse_idem[OF assms distinct_schemas(9)]
    by (simp add: client_getPublicService_def get_by_id_sends)
qed

lemmas tool_sends =
  tool_getCodeListEntries_sends tool_searchConcepts_sends tool_getConcept_sends
  tool_searchDatasets_sends tool_getDataset_sends tool_searchDataServices_sends
  tool_getDataService_sends tool_searchPublicServices_sends tool_getPublicService_sends

lemma registered_handler_sends:
  assumes "(nm, entry) \<in> set tools" and "parse ev (schema entry) args = Inr v"
  shows "\<exists>req. snd (handler entry ev (JObj v) sent) = sent @ [req]"
proof -
  have "\<forall>(nm, entry) \<in> set tools. \<forall>v. parse ev (schema entry) args = Inr v \<longrightarrow>
          (\<exists>req. snd (handler entry ev (JObj v) sent) = sent @ [req])"
    unfolding tools_eq
    by (simp del: ex_simps, intro conjI allI impI; erule tool_sends)
  with assms show ?thesis by fast
qed

text \<open>
  Claim C4. For every registered operation, every argument value and every behaviour of
  the transport, the dispatcher returns one envelope whose content is a single item of
  type \<open>text\<close>. When the arguments fail the schema of the operation, no request is issued
  and the envelope has \<open>isError = true\<close>. When they pass, exactly one request is issued;
  \<open>isError\<close> is absent when the transport answers that request with a body, and \<open>true\<close>
  when the transport raises.
\<close>

theorem callTool_envelope:
  assumes "map_of tools nm = Some entry"
  shows "(\<forall>err. parse ev (schema entry) args = Inl err \<longrightarrow>
            (\<exists>tx. callTool ev nm args sent = (Inr (error_envelope tx), sent))) \<and>
         (\<forall>v. parse ev (schema entry) args = Inr v \<longrightarrow>
            (\<exists>e req. callTool ev nm args sent = (Inr e, sent @ [req]) \<and>
               (\<exists>t. content e = [\<lparr>type = ''text'', text_value = t\<rparr>]) \<and>
               (case http ev req of
                  Inr body \<Rightarrow> isError e = None
                | Inl err \<Rightarrow> isError e = Some True)))"
proof (intro conjI allI impI)
  from assms have mem: "(nm, entry) \<in> set tools" by (rule map_of_SomeD)
  let ?pre = "''Error executing '' @ nm @ '': ''"
  {
    fix err assume p: "parse ev (schema entry) args = Inl err"
    then have "\<exists>iss. err = ZodError ev iss"
      by (auto simp: parse_def split: jsval.splits prod.splits list.splits)
    then have "printable err" by (auto simp: printable_ZodError)
    from caught_ok[OF this, of ?pre] obtain tx where
      "message_envelope ?pre err = Inr (error_envelope tx)" by blast
    with p assms have "callTool ev nm args sent = (Inr (error_envelope tx), sent)"
      by (simp add: callTool_def)
    then show "\<exists>tx. callTool ev nm args sent = (Inr (error_envelope tx), sent)" ..
  }
  {
    fix v assume p: "parse ev (schema entry) args = Inr v"
    from registered_handler_sends[OF mem p, of sent] obtain req where
      s: "snd (handler entry ev (JObj v) sent) = sent @ [req]" by blast
    obtain h where h: "handler entry ev (JObj v) sent = (h, sent @ [req])"
      using s by (cases "handler entry ev (JObj v) sent") simp
    from registered_handler_ok[OF mem, of ev sent "JObj v"] h
    have ok: "handler_ok ev sent (h, sent @ [req])" by simp
    show "\<exists>e req. callTool ev nm args sent = (Inr e, sent @ [req]) \<and>
               (\<exists>t. content e = [\<lparr>type = ''text'', text_value = t\<rparr>]) \<and>
               (case http ev req of
                  Inr body \<Rightarrow> isError e = None
                | Inl err \<Rightarrow> isError e = Some True)"
    proof (cases h)
      case (Inl t)
      with ok have pt: "printable t" and nf: "\<not> fetched ev sent (sent @ [req])"
        by (simp_all add: handler_ok_def)
      from caught_ok[OF pt, of ?pre] obtain tx where
        m: "message_envelope ?pre t = Inr (error_envelope tx)" by blast
      from assms p h Inl m have "callTool ev nm args sent = (Inr (error_envelope tx), sent @ [req])"
        by (simp add: callTool_def)
      moreover from nf have "\<exists>err. http ev req = Inl err"
        by (cases "http ev req") (simp_all add: fetched_snoc)
      ultimately show ?thesis
        by (auto simp: error_envelope_def)
    next
      case (Inr e)
      with ok have te: "text_envelope e"
        and ie: "if fetched ev sent (sent @ [req]) then isError e = None else isError e = Some True"
        by (simp_all add: handler_ok_def)
      from assms p h Inr have "callTool ev nm args sent = (Inr e, sent @ [req])"
        by (simp add: callTool_def)
      moreover from ie have "case http ev req of Inr body \<Rightarrow> isError e = None
                | Inl err \<Rightarrow> isError e = Some True"
        by (cases "http ev req") (simp_all add: fetched_snoc)
      ultimately show ?thesis using te by (auto simp: text_envelope_def)
    qed
  }
qed

theorem callTool_envelope_witness:
  "map_of tools ''search_concepts'' =
     Some \<lparr>tool_name = ''search_concepts'',
          description = ''Search for concepts in the I14Y Interoperability Platform'',
          schema = searchConceptsSchema, handler = tool_searchConcepts\<rparr> \<and>
   parse stub_env searchConceptsSchema (JObj []) = Inr [(''page'', JNum 1), (''pageSize'', JNum 25)] \<and>
   callTool stub_env ''search_concepts'' (JObj []) [] =
     (Inr \<lparr>content = [\<lparr>type = ''text'', text_value = JStr ''{}''\<rparr>], isError = None\<rparr>,
      [\<lparr>path = ''concepts'', searchParams = Some [(''page'', JStr ''1''), (''pageSize'', JStr ''25'')]\<rparr>]) \<and>
   http stub_env \<lparr>path = ''concepts'', searchParams = Some [(''page'', JStr ''1''), (''pageSize'', JStr ''25'')]\<rparr> =
     Inr (JObj [(''items'', JArr [JObj [(''id'', JStr ''1''), (''identifier'', JStr ''concept-1'')]]),
                (''totalCount'', JNum 1)]) \<and>
   parse stub_env searchConceptsSchema (JObj [(''page'', JNum 0)]) =
     Inl (ZodError stub_env [ZIssue ''too_small'' [''page'']]) \<and>
   isError (projr (fst (callTool stub_env ''search_concepts'' (JObj [(''page'', JNum 0)]) []))) = Some True \<and>
   (\<exists>e req. callTool stub_env ''search_concepts'' (JObj []) [] = (Inr e, [] @ [req]) \<and>
      (\<exists>t. content e = [\<lparr>type = ''text'', text_value = t\<rparr>]) \<and>
      (case http stub_env req of Inr body \<Rightarrow> isError e = None | Inl err \<Rightarrow> isError e = Some True))"
proof -
  let ?entry = "\<lparr>tool_name = ''search_concepts'',
          description = ''Search for concepts in the I14Y Interoperability Platform'',
          schema = searchConceptsSchema, handler = tool_searchConcepts\<rparr>"
  let ?req = "\<lparr>path = ''concepts'', searchParams = Some [(''page'', JStr ''1''), (''pageSize'', JStr ''25'')]\<rparr>"
  have m: "map_of tools ''search_concepts'' = Some ?entry" by (rule map_of_tools_search_concepts)
  have p: "parse stub_env searchConceptsSchema (JObj []) = Inr [(''page'', JNum 1), (''pageSize'', JNum 25)]"
    by (simp add: parse_def searchConceptsSchema_def field_def)
  have c: "callTool stub_env ''search_concepts'' (JObj []) [] =
     (Inr \<lparr>content = [\<lparr>type = ''text'', text_value = JStr ''{}''\<rparr>], isError = None\<rparr>, [?req])"
    by code_simp
  have h: "http stub_env ?req =
     Inr (JObj [(''items'', JArr [JObj [(''id'', JStr ''1''), (''identifier'', JStr ''concept-1'')]]),
                (''totalCount'', JNum 1)])"
    by (simp add: stub_env_def)
  have z: "parse stub_env searchConceptsSchema (JObj [(''page'', JNum 0)]) =
     Inl (ZodError stub_env [ZIssue ''too_small'' [''page'']])"
    by (rule parse_searchConcepts_page_zero)
  from z have z': "parse stub_env (schema ?entry) (JObj [(''page'', JNum 0)]) =
     Inl (ZodError stub_env [ZIssue ''too_small'' [''page'']])"
    by simp
  from callTool_envelope[OF m, of stub_env "JObj [(''page'', JNum 0)]" "[]",
      THEN conjunct1, rule_format, OF z']
  obtain tx where k: "callTool stub_env ''search_concepts'' (JObj [(''page'', JNum 0)]) [] =
      (Inr (error_envelope tx), [])"
    by (rule exE)
  have e: "isError (projr (fst (callTool stub_env ''search_concepts'' (JObj [(''page'', JNum 0)]) []))) = Some True"
    unfolding k by (simp add: error_envelope_def)
  from p have p': "parse stub_env (schema ?entry) (JObj []) = Inr [(''page'', JNum 1), (''pageSize'', JNum 25)]"
    by simp
  note s = callTool_envelope[OF m, of stub_env "JObj []" "[]", THEN conjunct2, rule_format, OF p']
  from m p c h z e s show ?thesis by (intro conjI)
qed

end
